theory Spec2Isabelle
  imports Complex_Main
begin

section \<open>Data model\<close>

text \<open>
  Prices and money are Python floats in the source; they are modelled as real numbers
  (no rounding, no NaN, no infinities). A timestamp, that is a label of the DataFrame
  index, is an absolute instant counted in seconds.
\<close>

type_synonym timestamp = int

text \<open>The exceptions the modelled code can raise.\<close>

datatype py_error = ZeroDivisionError | IndexError | TypeError | ValueError

text \<open>One row of OHLCV data, as read by \<^verbatim>\<open>row['Open']\<close> and so on.\<close>

record candle =
  Open :: real
  High :: real
  Low :: real
  Close :: real
  Volume :: real

text \<open>
  A DataFrame is the list of its rows in positional order, each with its index label.
  \<^verbatim>\<open>df.iloc[k]\<close> raises IndexError beyond the last row; the positions used by the
  code are never negative when it is reached.
\<close>

type_synonym 'r dataframe = "(timestamp \<times> 'r) list"

definition iloc :: "'r dataframe \<Rightarrow> nat \<Rightarrow> py_error + 'r" where
  "iloc df k = (if k < length df then Inr (snd (df ! k)) else Inl IndexError)"

text \<open>
  \<^verbatim>\<open>df.loc[label, columns] = values\<close>: every row carrying the label is
  updated.
\<close>

definition set_loc :: "timestamp \<Rightarrow> ('r \<Rightarrow> 'r) \<Rightarrow> 'r dataframe \<Rightarrow> 'r dataframe" where
  "set_loc label f df = map (\<lambda>(t, r). if t = label then (t, f r) else (t, r)) df"

section \<open>patterns/candlestick.py\<close>

definition is_hammer :: "'a candle_scheme \<Rightarrow> real \<Rightarrow> real \<Rightarrow> bool" where
  "is_hammer row body_ratio wick_ratio =
     (let open_price = Open row; high = High row; low = Low row; close = Close row;
          body = \<bar>close - open_price\<bar>;
          total_range = high - low;
          lower_wick = min open_price close - low;
          upper_wick = high - max open_price close
      in if total_range = 0 \<or> total_range < 0.0001 then False
         else if body < total_range * 0.05 then False
         else (let is_small_body = (body / total_range \<le> body_ratio);
                   is_long_lower_wick = (lower_wick \<ge> wick_ratio * body);
                   is_small_upper_wick = (upper_wick \<le> body * 0.5);
                   is_lower_wick_dominant = (lower_wick / total_range \<ge> 0.6)
               in is_small_body \<and> is_long_lower_wick \<and> is_small_upper_wick
                  \<and> is_lower_wick_dominant))"

definition is_shooting_star :: "'a candle_scheme \<Rightarrow> real \<Rightarrow> real \<Rightarrow> bool" where
  "is_shooting_star row body_ratio wick_ratio =
     (let open_price = Open row; high = High row; low = Low row; close = Close row;
          body = \<bar>close - open_price\<bar>;
          total_range = high - low;
          upper_wick = high - max open_price close;
          lower_wick = min open_price close - low
      in if total_range = 0 \<or> total_range < 0.0001 then False
         else if body < total_range * 0.05 then False
         else (let is_small_body = (body / total_range \<le> body_ratio);
                   is_long_upper_wick = (upper_wick \<ge> wick_ratio * body);
                   is_small_lower_wick = (lower_wick \<le> body * 0.5);
                   is_upper_wick_dominant = (upper_wick / total_range \<ge> 0.6)
               in is_small_body \<and> is_long_upper_wick \<and> is_small_lower_wick
                  \<and> is_upper_wick_dominant))"

text \<open>
  \<^verbatim>\<open>detect_downtrend(df, index, num_candles, strict)\<close>. The strict loop runs
  \<open>i = 1, ..., num_candles\<close>; it returns False as soon as \<open>prev_idx = index - i - 1\<close>
  is negative or a pair fails. Reads beyond the last row raise IndexError.
\<close>

fun strict_down_loop :: "'a candle_scheme dataframe \<Rightarrow> nat \<Rightarrow> nat list \<Rightarrow> py_error + bool" where
  "strict_down_loop df index [] = Inr True"
| "strict_down_loop df index (i # rest) =
     (let current_idx = int index - int i; prev_idx = int index - int i - 1
      in if prev_idx < 0 then Inr False
         else (case iloc df (nat current_idx) of
                 Inl e \<Rightarrow> Inl e
               | Inr cur \<Rightarrow>
                  (case iloc df (nat prev_idx) of
                     Inl e \<Rightarrow> Inl e
                   | Inr prev \<Rightarrow>
                      (let current_high = High cur; prev_high = High prev
                       in if current_high \<ge> prev_high then Inr False
                          else strict_down_loop df index rest))))"

fun bearish_count_loop :: "'a candle_scheme dataframe \<Rightarrow> nat \<Rightarrow> nat list \<Rightarrow> nat \<Rightarrow> py_error + nat" where
  "bearish_count_loop df index [] bearish_count = Inr bearish_count"
| "bearish_count_loop df index (i # rest) bearish_count =
     (let idx = int index - int i
      in case iloc df (nat idx) of
           Inl e \<Rightarrow> Inl e
         | Inr r \<Rightarrow> bearish_count_loop df index rest
                     (if Close r < Open r then bearish_count + 1 else bearish_count))"

definition detect_downtrend :: "'a candle_scheme dataframe \<Rightarrow> nat \<Rightarrow> nat \<Rightarrow> bool \<Rightarrow> py_error + bool" where
  "detect_downtrend df index num_candles strict =
     (if index < num_candles then Inr False
      else if strict then strict_down_loop df index [1 ..< num_candles + 1]
      else (case bearish_count_loop df index [1 ..< num_candles + 1] 0 of
              Inl e \<Rightarrow> Inl e
            | Inr bearish_count \<Rightarrow> Inr (real bearish_count \<ge> real num_candles * 0.7)))"

fun strict_up_loop :: "'a candle_scheme dataframe \<Rightarrow> nat \<Rightarrow> nat list \<Rightarrow> py_error + bool" where
  "strict_up_loop df index [] = Inr True"
| "strict_up_loop df index (i # rest) =
     (let current_idx = int index - int i; prev_idx = int index - int i - 1
      in if prev_idx < 0 then Inr False
         else (case iloc df (nat current_idx) of
                 Inl e \<Rightarrow> Inl e
               | Inr cur \<Rightarrow>
                  (case iloc df (nat prev_idx) of
                     Inl e \<Rightarrow> Inl e
                   | Inr prev \<Rightarrow>
                      (let current_low = Low cur; prev_low = Low prev
                       in if current_low \<le> prev_low then Inr False
                          else strict_up_loop df index rest))))"

fun bullish_count_loop :: "'a candle_scheme dataframe \<Rightarrow> nat \<Rightarrow> nat list \<Rightarrow> nat \<Rightarrow> py_error + nat" where
  "bullish_count_loop df index [] bullish_count = Inr bullish_count"
| "bullish_count_loop df index (i # rest) bullish_count =
     (let idx = int index - int i
      in case iloc df (nat idx) of
           Inl e \<Rightarrow> Inl e
         | Inr r \<Rightarrow> bullish_count_loop df index rest
                     (if Close r > Open r then bullish_count + 1 else bullish_count))"

definition detect_uptrend :: "'a candle_scheme dataframe \<Rightarrow> nat \<Rightarrow> nat \<Rightarrow> bool \<Rightarrow> py_error + bool" where
  "detect_uptrend df index num_candles strict =
     (if index < num_candles then Inr False
      else if strict then strict_up_loop df index [1 ..< num_candles + 1]
      else (case bullish_count_loop df index [1 ..< num_candles + 1] 0 of
              Inl e \<Rightarrow> Inl e
            | Inr bullish_count \<Rightarrow> Inr (real bullish_count \<ge> real num_candles * 0.7)))"

section \<open>backtester/portfolio.py\<close>

text \<open>
  \<^verbatim>\<open>position_type\<close> is the string 'LONG' or 'SHORT' in the source; no other value is
  ever passed.
\<close>

datatype side = LONG | SHORT

record position =
  entry_date :: timestamp
  entry_price :: real
  quantity :: int
  stop_loss :: real
  target :: real
  symbol :: string
  position_type :: side
  exit_date :: "timestamp option"
  exit_price :: "real option"
  exit_reason :: "string option"
  pnl :: real
  pnl_percent :: real
  pattern_date :: "timestamp option"

definition Position_init ::
  "timestamp \<Rightarrow> real \<Rightarrow> int \<Rightarrow> real \<Rightarrow> real \<Rightarrow> string \<Rightarrow> side \<Rightarrow> position" where
  "Position_init entry_date' entry_price' quantity' stop_loss' target' symbol' position_type' =
     \<lparr> entry_date = entry_date', entry_price = entry_price', quantity = quantity',
       stop_loss = stop_loss', target = target', symbol = symbol',
       position_type = position_type', exit_date = None, exit_price = None,
       exit_reason = None, pnl = 0, pnl_percent = 0, pattern_date = None \<rparr>"

text \<open>
  \<^verbatim>\<open>Position.close\<close> mutates the position field by field; the percentage divides by
  the entry price, so a zero entry price raises after the first four assignments.
\<close>

definition Position_close ::
  "timestamp \<Rightarrow> real \<Rightarrow> string \<Rightarrow> position \<Rightarrow> (py_error + unit) \<times> position" where
  "Position_close exit_date' exit_price' reason pos =
     (let pos1 = pos\<lparr> exit_date := Some exit_date', exit_price := Some exit_price',
                       exit_reason := Some reason \<rparr>
      in if position_type pos1 = LONG then
           (let pos2 = pos1\<lparr> pnl := (exit_price' - entry_price pos1) * real_of_int (quantity pos1) \<rparr>
            in if entry_price pos2 = 0 then (Inl ZeroDivisionError, pos2)
               else (Inr (), pos2\<lparr> pnl_percent :=
                       ((exit_price' - entry_price pos2) / entry_price pos2) * 100 \<rparr>))
         else
           (let pos2 = pos1\<lparr> pnl := (entry_price pos1 - exit_price') * real_of_int (quantity pos1) \<rparr>
            in if entry_price pos2 = 0 then (Inl ZeroDivisionError, pos2)
               else (Inr (), pos2\<lparr> pnl_percent :=
                       ((entry_price pos2 - exit_price') / entry_price pos2) * 100 \<rparr>)))"

record portfolio =
  initial_capital :: real
  cash :: real
  commission :: real
  slippage :: real
  positions :: "position list"
  current_position :: "position option"
  equity_curve :: "(timestamp \<times> real \<times> real) list"

definition Portfolio_init :: "real \<Rightarrow> real \<Rightarrow> real \<Rightarrow> portfolio" where
  "Portfolio_init initial_capital' commission' slippage' =
     \<lparr> initial_capital = initial_capital', cash = initial_capital',
       commission = commission', slippage = slippage', positions = [],
       current_position = None, equity_curve = [] \<rparr>"

text \<open>Python's \<^verbatim>\<open>int(x)\<close> on a float truncates towards zero.\<close>

definition py_int :: "real \<Rightarrow> int" where
  "py_int x = (if x \<ge> 0 then \<lfloor>x\<rfloor> else \<lceil>x\<rceil>)"

text \<open>
  \<^verbatim>\<open>Portfolio.open_position\<close>. The result is what the call returns or raises, paired
  with the portfolio after the call. The affordability division raises when
  \<open>entry_price * (1 + slippage)\<close> is zero; nothing has been assigned by then.
\<close>

definition open_position ::
  "timestamp \<Rightarrow> real \<Rightarrow> real \<Rightarrow> real \<Rightarrow> string \<Rightarrow> real \<Rightarrow> side \<Rightarrow> portfolio
     \<Rightarrow> (py_error + bool) \<times> portfolio" where
  "open_position date entry_price' stop_loss' target' symbol' position_size position_type' p =
     (if current_position p \<noteq> None then (Inr False, p)
      else
        (let risk_per_share =
               (if position_type' = LONG then entry_price' - stop_loss'
                else stop_loss' - entry_price')
         in if risk_per_share \<le> 0 then (Inr False, p)
            else
              (let risk_per_trade = cash p * position_size;
                   quantity_by_risk = py_int (risk_per_trade / risk_per_share);
                   available_cash = cash p * 0.98
               in if entry_price' * (1 + slippage p) = 0 then (Inl ZeroDivisionError, p)
                  else
                    (let max_quantity =
                           py_int (available_cash / (entry_price' * (1 + slippage p)));
                         quantity' = min quantity_by_risk max_quantity
                     in if quantity' \<le> 0 then (Inr False, p)
                        else
                          (let actual_entry = entry_price' * (1 + slippage p);
                               cost = real_of_int quantity' * actual_entry;
                               commission_cost = cost * commission p;
                               total_cost = cost + commission_cost
                           in if total_cost > cash p then (Inr False, p)
                              else (Inr True,
                                    p\<lparr> current_position :=
                                         Some (Position_init date actual_entry quantity'
                                                 stop_loss' target' symbol' position_type'),
                                       cash := cash p - total_cost \<rparr>))))))"

text \<open>
  \<^verbatim>\<open>Portfolio.close_position\<close>. When \<^verbatim>\<open>Position.close\<close> raises, the partly
  updated position is still the open one and the cash is untouched.
\<close>

definition close_position ::
  "timestamp \<Rightarrow> real \<Rightarrow> string \<Rightarrow> portfolio \<Rightarrow> (py_error + bool) \<times> portfolio" where
  "close_position date exit_price' reason p =
     (case current_position p of
        None \<Rightarrow> (Inr False, p)
      | Some pos \<Rightarrow>
         (let actual_exit = exit_price' * (1 - slippage p);
              proceeds = real_of_int (quantity pos) * actual_exit;
              commission_cost = proceeds * commission p;
              net_proceeds = proceeds - commission_cost
          in case Position_close date actual_exit reason pos of
               (Inl e, pos') \<Rightarrow> (Inl e, p\<lparr> current_position := Some pos' \<rparr>)
             | (Inr u, pos') \<Rightarrow>
                 (Inr True, p\<lparr> cash := cash p + net_proceeds,
                               positions := positions p @ [pos'],
                               current_position := None \<rparr>)))"

text \<open>
  \<^verbatim>\<open>Portfolio.update_equity(date, current_price=None)\<close>: the open quantity is
  valued only when a position is open and the price is truthy (given and non-zero).
\<close>

definition update_equity :: "timestamp \<Rightarrow> real option \<Rightarrow> portfolio \<Rightarrow> portfolio" where
  "update_equity date current_price p =
     (let equity =
            (case (current_position p, current_price) of
               (Some pos, Some price) \<Rightarrow>
                  (if price \<noteq> 0 then cash p + real_of_int (quantity pos) * price else cash p)
             | _ \<Rightarrow> cash p)
      in p\<lparr> equity_curve := equity_curve p @ [(date, equity, cash p)] \<rparr>)"

definition get_total_equity :: "real option \<Rightarrow> portfolio \<Rightarrow> real" where
  "get_total_equity current_price p =
     (case (current_position p, current_price) of
        (Some pos, Some price) \<Rightarrow>
           (if price \<noteq> 0 then cash p + real_of_int (quantity pos) * price else cash p)
      | _ \<Rightarrow> cash p)"

text \<open>
  A caller's sequence of \<^verbatim>\<open>open_position\<close> and \<^verbatim>\<open>close_position\<close> calls. A call
  that raises leaves the portfolio as it was at the raise, and the caller may go on.
\<close>

datatype call =
    OpenCall timestamp real real real string real side
  | CloseCall timestamp real string

fun apply_call :: "call \<Rightarrow> portfolio \<Rightarrow> (py_error + bool) \<times> portfolio" where
  "apply_call (OpenCall d e s t sy sz sd) p = open_position d e s t sy sz sd p"
| "apply_call (CloseCall d x reason) p = close_position d x reason p"

fun run_calls :: "call list \<Rightarrow> portfolio \<Rightarrow> (call \<times> (py_error + bool)) list \<times> portfolio" where
  "run_calls [] p = ([], p)"
| "run_calls (c # cs) p =
     (let (r, p') = apply_call c p; (lg, p'') = run_calls cs p'
      in ((c, r) # lg, p''))"

text \<open>The successful calls of a log, in order: True for an open, False for a close.\<close>

fun successes :: "(call \<times> (py_error + bool)) list \<Rightarrow> bool list" where
  "successes [] = []"
| "successes ((OpenCall d e s t sy sz sd, r) # lg) =
     (if r = Inr True then True # successes lg else successes lg)"
| "successes ((CloseCall d x reason, r) # lg) =
     (if r = Inr True then False # successes lg else successes lg)"

text \<open>A list of opens (True) and closes (False) alternates, starting with \<open>b\<close>.\<close>

fun alternates :: "bool \<Rightarrow> bool list \<Rightarrow> bool" where
  "alternates b [] = True"
| "alternates b (x # xs) = (x = b \<and> alternates (\<not> b) xs)"

section \<open>config.py and backtester/engine.py\<close>

definition INITIAL_CAPITAL :: real where "INITIAL_CAPITAL = 500000"
definition COMMISSION :: real where "COMMISSION = 0.0003"
definition SLIPPAGE :: real where "SLIPPAGE = 0.0001"

text \<open>
  Python's \<^verbatim>\<open>x or d\<close> on an optional number: \<open>d\<close> when \<open>x\<close> is None or zero (both
  are falsy), \<open>x\<close> otherwise.
\<close>

definition py_or :: "real option \<Rightarrow> real \<Rightarrow> real" where
  "py_or x d = (case x of None \<Rightarrow> d | Some v \<Rightarrow> if v = 0 then d else v)"

record engine =
  engine_initial_capital :: real
  engine_commission :: real
  engine_slippage :: real

text \<open>
  \<^verbatim>\<open>BacktestEngine.__init__(strategy, initial_capital=None, commission=None,
  slippage=None)\<close>; an argument the caller leaves out is None.
\<close>

definition BacktestEngine_init :: "real option \<Rightarrow> real option \<Rightarrow> real option \<Rightarrow> engine" where
  "BacktestEngine_init initial_capital' commission' slippage' =
     \<lparr> engine_initial_capital = py_or initial_capital' INITIAL_CAPITAL,
       engine_commission = py_or commission' COMMISSION,
       engine_slippage = py_or slippage' SLIPPAGE \<rparr>"

text \<open>The portfolio that \<^verbatim>\<open>run\<close> creates for the run.\<close>

definition run_portfolio :: "engine \<Rightarrow> portfolio" where
  "run_portfolio eng =
     Portfolio_init (engine_initial_capital eng) (engine_commission eng) (engine_slippage eng)"

text \<open>
  A row of the annotated frame: the OHLCV columns and the signal columns. A NaN or NaT
  cell is None.
\<close>

record signal_row = candle +
  signal :: int
  entry_price_col :: "real option"
  stop_loss_col :: "real option"
  target_col :: "real option"
  pattern_date_col :: "timestamp option"

text \<open>The engine ignores what \<^verbatim>\<open>close_position\<close> returns; an exception propagates.\<close>

definition ignore_result :: "(py_error + bool) \<times> portfolio \<Rightarrow> (py_error + unit) \<times> portfolio" where
  "ignore_result r = (case r of (Inl e, p) \<Rightarrow> (Inl e, p) | (Inr b, p) \<Rightarrow> (Inr (), p))"

text \<open>The exit block of the loop body of \<^verbatim>\<open>run\<close> (lines 47 to 66).\<close>

definition check_exits ::
  "timestamp \<Rightarrow> 'a signal_row_scheme \<Rightarrow> portfolio \<Rightarrow> (py_error + unit) \<times> portfolio" where
  "check_exits date row p =
     (case current_position p of
        None \<Rightarrow> (Inr (), p)
      | Some pos \<Rightarrow>
         (let current_high = High row; current_low = Low row
          in if entry_date pos \<noteq> date then
               (if position_type pos = LONG then
                  (if current_low \<le> stop_loss pos then
                     ignore_result (close_position date (stop_loss pos) ''Stop Loss'' p)
                   else if current_high \<ge> target pos then
                     ignore_result (close_position date (target pos) ''Target'' p)
                   else (Inr (), p))
                else
                  (if current_high \<ge> stop_loss pos then
                     ignore_result (close_position date (stop_loss pos) ''Stop Loss'' p)
                   else if current_low \<le> target pos then
                     ignore_result (close_position date (target pos) ''Target'' p)
                   else (Inr (), p)))
             else (Inr (), p)))"

text \<open>
  The entry block (lines 68 to 82). \<^verbatim>\<open>Config.MAX_POSITION_SIZE\<close> is a global that
  the caller may reassign, so it is a parameter. A signal row whose entry price or stop is
  NaN makes \<^verbatim>\<open>int()\<close> raise ValueError inside \<^verbatim>\<open>open_position\<close>; the strategies
  write the three prices together with the signal, and a row with a signal and a NaN among
  them is treated as that error.
\<close>

definition check_entry ::
  "real \<Rightarrow> string \<Rightarrow> timestamp \<Rightarrow> 'a signal_row_scheme \<Rightarrow> portfolio
     \<Rightarrow> (py_error + unit) \<times> portfolio" where
  "check_entry max_position_size symbol' date row p =
     (if signal row \<noteq> 0 \<and> current_position p = None then
        (let position_type' = (if signal row = 1 then LONG else SHORT)
         in case (entry_price_col row, stop_loss_col row, target_col row) of
              (Some e, Some s, Some t) \<Rightarrow>
                (case open_position date e s t symbol' max_position_size position_type' p of
                   (Inl err, p') \<Rightarrow> (Inl err, p')
                 | (Inr success, p') \<Rightarrow>
                     (case (current_position p', pattern_date_col row) of
                        (Some pos, Some pd) \<Rightarrow>
                          (if success
                           then (Inr (), p'\<lparr> current_position := Some (pos\<lparr> pattern_date := Some pd \<rparr>) \<rparr>)
                           else (Inr (), p'))
                      | _ \<Rightarrow> (Inr (), p')))
            | _ \<Rightarrow> (Inl ValueError, p))
      else (Inr (), p))"

text \<open>One iteration of the loop: exits, then entry, then the equity record.\<close>

definition process_bar ::
  "real \<Rightarrow> string \<Rightarrow> timestamp \<times> 'a signal_row_scheme \<Rightarrow> portfolio
     \<Rightarrow> (py_error + unit) \<times> portfolio" where
  "process_bar max_position_size symbol' bar p =
     (let date = fst bar; row = snd bar
      in case check_exits date row p of
           (Inl e, p1) \<Rightarrow> (Inl e, p1)
         | (Inr u, p1) \<Rightarrow>
            (case check_entry max_position_size symbol' date row p1 of
               (Inl e, p2) \<Rightarrow> (Inl e, p2)
             | (Inr u', p2) \<Rightarrow> (Inr (), update_equity date (Some (Close row)) p2)))"

fun run_loop ::
  "real \<Rightarrow> string \<Rightarrow> 'a signal_row_scheme dataframe \<Rightarrow> portfolio
     \<Rightarrow> (py_error + unit) \<times> portfolio" where
  "run_loop max_position_size symbol' [] p = (Inr (), p)"
| "run_loop max_position_size symbol' (bar # bars) p =
     (case process_bar max_position_size symbol' bar p of
        (Inl e, p') \<Rightarrow> (Inl e, p')
      | (Inr u, p') \<Rightarrow> run_loop max_position_size symbol' bars p')"

text \<open>
  The trading part of \<^verbatim>\<open>run\<close>: the loop, then the forced close of a position that is
  still open at the last bar's close.
\<close>

definition run_trades ::
  "engine \<Rightarrow> real \<Rightarrow> string \<Rightarrow> 'a signal_row_scheme dataframe
     \<Rightarrow> (py_error + unit) \<times> portfolio" where
  "run_trades eng max_position_size symbol' df_signals =
     (case run_loop max_position_size symbol' df_signals (run_portfolio eng) of
        (Inl e, p) \<Rightarrow> (Inl e, p)
      | (Inr u, p) \<Rightarrow>
         (if current_position p \<noteq> None then
            (if df_signals = [] then (Inl IndexError, p)
             else ignore_result
                    (close_position (fst (last df_signals)) (Close (snd (last df_signals)))
                       ''End of Data'' p))
          else (Inr (), p)))"

section \<open>strategies/hammer_strategy.py and strategies/shooting_star_strategy.py\<close>

text \<open>A \<^verbatim>\<open>for\<close> loop whose body may raise.\<close>

fun for_each :: "('a \<Rightarrow> 's \<Rightarrow> py_error + 's) \<Rightarrow> 'a list \<Rightarrow> 's \<Rightarrow> py_error + 's" where
  "for_each body [] s = Inr s"
| "for_each body (i # rest) s =
     (case body i s of Inl e \<Rightarrow> Inl e | Inr s' \<Rightarrow> for_each body rest s')"

record hammer_row = signal_row +
  is_hammer_col :: bool
  has_downtrend_col :: bool

text \<open>
  The column initialisation of \<^verbatim>\<open>HammerStrategy.generate_signals\<close> (lines 27 to 34)
  on one row of the copied frame: the OHLCV cells stay, the seven annotation columns get
  their defaults.
\<close>

definition hammer_init_row :: "'a candle_scheme \<Rightarrow> hammer_row" where
  "hammer_init_row r =
     \<lparr> Open = Open r, High = High r, Low = Low r, Close = Close r, Volume = Volume r,
       signal = 0, entry_price_col = None, stop_loss_col = None, target_col = None,
       pattern_date_col = None, is_hammer_col = False, has_downtrend_col = False \<rparr>"

text \<open>
  The body of the scan loop at position \<open>i\<close> (lines 38 to 88). \<^verbatim>\<open>is_hammer\<close> is called
  with its default parameters 0.25 and 2.5. After \<^verbatim>\<open>df.iloc[k]\<close> has succeeded,
  \<^verbatim>\<open>df.index[k]\<close> is the label at position \<open>k\<close>. The five assignments to the
  signal columns of the label at \<open>i + 1\<close> are one update.
\<close>

definition hammer_step :: "nat \<Rightarrow> real \<Rightarrow> nat \<Rightarrow> hammer_row dataframe \<Rightarrow> py_error + hammer_row dataframe" where
  "hammer_step downtrend_candles risk_reward i df =
     (case iloc df i of
        Inl e \<Rightarrow> Inl e
      | Inr row_i \<Rightarrow>
         (let is_hammer' = is_hammer row_i 0.25 2.5;
              df1 = set_loc (fst (df ! i)) (\<lambda>r. r\<lparr> is_hammer_col := is_hammer' \<rparr>) df
          in if is_hammer' then
               (case detect_downtrend df1 i downtrend_candles True of
                  Inl e \<Rightarrow> Inl e
                | Inr strict_downtrend \<Rightarrow>
                   (case (if \<not> strict_downtrend
                          then detect_downtrend df1 i downtrend_candles False
                          else Inr strict_downtrend) of
                      Inl e \<Rightarrow> Inl e
                    | Inr has_downtrend \<Rightarrow>
                       (let df2 = set_loc (fst (df1 ! i))
                                    (\<lambda>r. r\<lparr> has_downtrend_col := has_downtrend \<rparr>) df1
                        in if has_downtrend then
                             (case iloc df2 i of
                                Inl e \<Rightarrow> Inl e
                              | Inr hammer \<Rightarrow>
                                 (let hammer_high = High hammer; hammer_low = Low hammer
                                  in case iloc df2 (i + 1) of
                                       Inl e \<Rightarrow> Inl e
                                     | Inr next_candle \<Rightarrow>
                                        (let breaks_high = (High next_candle > hammer_high);
                                             opens_above = (Open next_candle \<ge> hammer_high)
                                         in if breaks_high \<and> opens_above then
                                              (let entry_price = Open next_candle;
                                                   stop_loss' = hammer_low;
                                                   risk = entry_price - stop_loss'
                                               in if risk > 0 then
                                                    (let target' = entry_price + risk * risk_reward
                                                     in Inr (set_loc (fst (df2 ! (i + 1)))
                                                          (\<lambda>r. r\<lparr> signal := 1,
                                                                  entry_price_col := Some entry_price,
                                                                  stop_loss_col := Some stop_loss',
                                                                  target_col := Some target',
                                                                  pattern_date_col := Some (fst (df2 ! i)) \<rparr>)
                                                          df2))
                                                  else Inr df2)
                                            else Inr df2)))
                           else Inr df2)))
             else Inr df1))"

text \<open>
  \<^verbatim>\<open>HammerStrategy.generate_signals\<close> as a function of the frame's contents: the
  initialised copy, then the scan over \<^verbatim>\<open>range(downtrend_candles, len(df) - 1)\<close>.
\<close>

definition hammer_scan :: "nat \<Rightarrow> real \<Rightarrow> 'a candle_scheme dataframe \<Rightarrow> py_error + hammer_row dataframe" where
  "hammer_scan downtrend_candles risk_reward df =
     for_each (hammer_step downtrend_candles risk_reward)
       [downtrend_candles ..< length df - 1]
       (map (\<lambda>(t, r). (t, hammer_init_row r)) df)"

record star_row = signal_row +
  is_shooting_star_col :: bool
  has_uptrend_col :: bool

definition star_init_row :: "'a candle_scheme \<Rightarrow> star_row" where
  "star_init_row r =
     \<lparr> Open = Open r, High = High r, Low = Low r, Close = Close r, Volume = Volume r,
       signal = 0, entry_price_col = None, stop_loss_col = None, target_col = None,
       pattern_date_col = None, is_shooting_star_col = False, has_uptrend_col = False \<rparr>"

definition star_step :: "nat \<Rightarrow> real \<Rightarrow> nat \<Rightarrow> star_row dataframe \<Rightarrow> py_error + star_row dataframe" where
  "star_step uptrend_candles risk_reward i df =
     (case iloc df i of
        Inl e \<Rightarrow> Inl e
      | Inr row_i \<Rightarrow>
         (let is_shooting_star' = is_shooting_star row_i 0.25 2.5;
              df1 = set_loc (fst (df ! i)) (\<lambda>r. r\<lparr> is_shooting_star_col := is_shooting_star' \<rparr>) df
          in if is_shooting_star' then
               (case detect_uptrend df1 i uptrend_candles True of
                  Inl e \<Rightarrow> Inl e
                | Inr strict_uptrend \<Rightarrow>
                   (case (if \<not> strict_uptrend
                          then detect_uptrend df1 i uptrend_candles False
                          else Inr strict_uptrend) of
                      Inl e \<Rightarrow> Inl e
                    | Inr has_uptrend \<Rightarrow>
                       (let df2 = set_loc (fst (df1 ! i))
                                    (\<lambda>r. r\<lparr> has_uptrend_col := has_uptrend \<rparr>) df1
                        in if has_uptrend then
                             (case iloc df2 i of
                                Inl e \<Rightarrow> Inl e
                              | Inr star \<Rightarrow>
                                 (let shooting_star_high = High star; shooting_star_low = Low star
                                  in case iloc df2 (i + 1) of
                                       Inl e \<Rightarrow> Inl e
                                     | Inr next_candle \<Rightarrow>
                                        (let breaks_low = (Low next_candle < shooting_star_low);
                                             opens_below = (Open next_candle \<le> shooting_star_low)
                                         in if breaks_low \<and> opens_below then
                                              (let entry_price = Open next_candle;
                                                   stop_loss' = shooting_star_high;
                                                   risk = stop_loss' - entry_price
                                               in if risk > 0 then
                                                    (let target' = entry_price - risk * risk_reward
                                                     in Inr (set_loc (fst (df2 ! (i + 1)))
                                                          (\<lambda>r. r\<lparr> signal := - 1,
                                                                  entry_price_col := Some entry_price,
                                                                  stop_loss_col := Some stop_loss',
                                                                  target_col := Some target',
                                                                  pattern_date_col := Some (fst (df2 ! i)) \<rparr>)
                                                          df2))
                                                  else Inr df2)
                                            else Inr df2)))
                           else Inr df2)))
             else Inr df1))"

definition star_scan :: "nat \<Rightarrow> real \<Rightarrow> 'a candle_scheme dataframe \<Rightarrow> py_error + star_row dataframe" where
  "star_scan uptrend_candles risk_reward df =
     for_each (star_step uptrend_candles risk_reward)
       [uptrend_candles ..< length df - 1]
       (map (\<lambda>(t, r). (t, star_init_row r)) df)"

section \<open>strategies/ny_session_strategy.py\<close>

record ny_row = signal_row +
  four_hour_high_col :: "real option"
  four_hour_low_col :: "real option"

definition ny_init_row :: "'a candle_scheme \<Rightarrow> ny_row" where
  "ny_init_row r =
     \<lparr> Open = Open r, High = High r, Low = Low r, Close = Close r, Volume = Volume r,
       signal = 0, entry_price_col = None, stop_loss_col = None, target_col = None,
       pattern_date_col = None, four_hour_high_col = None, four_hour_low_col = None \<rparr>"

text \<open>
  The time zone arithmetic is pytz's and pandas': the calendar date of an instant in New
  York, and the instant at which a given hour and minute of a given New York date fall.
  Both are parameters of the model.
\<close>

record ny_clock =
  local_date :: "timestamp \<Rightarrow> int"
  session_open :: "nat \<Rightarrow> nat \<Rightarrow> int \<Rightarrow> timestamp"

text \<open>The four loop variables that track a breakout (lines 89 to 92).\<close>

record breakout_state =
  in_breakout_up :: bool
  in_breakout_down :: bool
  breakout_high :: "real option"
  breakout_low :: "real option"

definition flat_state :: breakout_state where
  "flat_state = \<lparr> in_breakout_up = False, in_breakout_down = False,
                  breakout_high = None, breakout_low = None \<rparr>"

text \<open>The test that the entire candle is back inside the range (lines 123 to 128).\<close>

definition inside_range :: "real \<Rightarrow> real \<Rightarrow> 'a candle_scheme \<Rightarrow> bool" where
  "inside_range four_hour_high four_hour_low candle =
     (High candle \<le> four_hour_high \<and> Low candle \<ge> four_hour_low
      \<and> Open candle \<le> four_hour_high \<and> Open candle \<ge> four_hour_low
      \<and> Close candle \<le> four_hour_high \<and> Close candle \<ge> four_hour_low)"

text \<open>
  The upward block (lines 116 to 147): extend the tracked extremes, then test for the
  re-entry. Comparing a price with None raises TypeError.
\<close>

definition breakout_up_block ::
  "real \<Rightarrow> real \<Rightarrow> real \<Rightarrow> timestamp \<Rightarrow> timestamp \<Rightarrow> 'a candle_scheme
     \<Rightarrow> breakout_state \<times> ny_row dataframe \<Rightarrow> py_error + (breakout_state \<times> ny_row dataframe)" where
  "breakout_up_block four_hour_high four_hour_low risk_reward session_start candle_idx candle s =
     (let st = fst s; df = snd s
      in case breakout_high st of
           None \<Rightarrow> Inl TypeError
         | Some bh \<Rightarrow>
            (let bh1 = (if High candle > bh then High candle else bh)
             in case breakout_low st of
                  None \<Rightarrow> Inl TypeError
                | Some bl \<Rightarrow>
                   (let bl1 = (if Low candle < bl then Low candle else bl);
                        st1 = st\<lparr> breakout_high := Some bh1, breakout_low := Some bl1 \<rparr>
                    in if inside_range four_hour_high four_hour_low candle then
                         (let entry_price = High candle;
                              stop_loss' = bh1;
                              risk = stop_loss' - entry_price;
                              df1 = (if risk > 0 then
                                       (let target' = entry_price - risk * risk_reward
                                        in set_loc candle_idx
                                             (\<lambda>r. r\<lparr> signal := - 1,
                                                     entry_price_col := Some entry_price,
                                                     stop_loss_col := Some stop_loss',
                                                     target_col := Some target',
                                                     pattern_date_col := Some session_start \<rparr>)
                                             df)
                                     else df)
                          in Inr (st1\<lparr> in_breakout_up := False, breakout_high := None,
                                       breakout_low := None \<rparr>, df1))
                       else Inr (st1, df))))"

text \<open>The downward block (lines 150 to 181), the mirror image.\<close>

definition breakout_down_block ::
  "real \<Rightarrow> real \<Rightarrow> real \<Rightarrow> timestamp \<Rightarrow> timestamp \<Rightarrow> 'a candle_scheme
     \<Rightarrow> breakout_state \<times> ny_row dataframe \<Rightarrow> py_error + (breakout_state \<times> ny_row dataframe)" where
  "breakout_down_block four_hour_high four_hour_low risk_reward session_start candle_idx candle s =
     (let st = fst s; df = snd s
      in case breakout_low st of
           None \<Rightarrow> Inl TypeError
         | Some bl \<Rightarrow>
            (let bl1 = (if Low candle < bl then Low candle else bl)
             in case breakout_high st of
                  None \<Rightarrow> Inl TypeError
                | Some bh \<Rightarrow>
                   (let bh1 = (if High candle > bh then High candle else bh);
                        st1 = st\<lparr> breakout_low := Some bl1, breakout_high := Some bh1 \<rparr>
                    in if inside_range four_hour_high four_hour_low candle then
                         (let entry_price = Low candle;
                              stop_loss' = bl1;
                              risk = entry_price - stop_loss';
                              df1 = (if risk > 0 then
                                       (let target' = entry_price + risk * risk_reward
                                        in set_loc candle_idx
                                             (\<lambda>r. r\<lparr> signal := 1,
                                                     entry_price_col := Some entry_price,
                                                     stop_loss_col := Some stop_loss',
                                                     target_col := Some target',
                                                     pattern_date_col := Some session_start \<rparr>)
                                             df)
                                     else df)
                          in Inr (st1\<lparr> in_breakout_down := False, breakout_high := None,
                                       breakout_low := None \<rparr>, df1))
                       else Inr (st1, df))))"

text \<open>
  The body of the loop over the candles after the session (lines 95 to 181): skip a candle
  whose label is not in the frame, look for a breakout with the close outside the range,
  then run the upward and the downward block in turn.
\<close>

definition ny_candle ::
  "real \<Rightarrow> real \<Rightarrow> real \<Rightarrow> timestamp \<Rightarrow> timestamp \<times> 'a candle_scheme
     \<Rightarrow> breakout_state \<times> ny_row dataframe \<Rightarrow> py_error + (breakout_state \<times> ny_row dataframe)" where
  "ny_candle four_hour_high four_hour_low risk_reward session_start c s =
     (let candle_idx = fst c; candle = snd c; st = fst s; df = snd s
      in if candle_idx \<notin> set (map fst df) then Inr s
         else
           (let st1 =
                  (if Close candle > four_hour_high \<and> \<not> in_breakout_up st \<and> \<not> in_breakout_down st
                   then st\<lparr> in_breakout_up := True, breakout_high := Some (High candle),
                            breakout_low := Some (Low candle) \<rparr>
                   else if Close candle < four_hour_low \<and> \<not> in_breakout_down st
                           \<and> \<not> in_breakout_up st
                   then st\<lparr> in_breakout_down := True, breakout_low := Some (Low candle),
                            breakout_high := Some (High candle) \<rparr>
                   else st)
            in case (if in_breakout_up st1
                     then breakout_up_block four_hour_high four_hour_low risk_reward
                            session_start candle_idx candle (st1, df)
                     else Inr (st1, df)) of
                 Inl e \<Rightarrow> Inl e
               | Inr s2 \<Rightarrow>
                  (if in_breakout_down (fst s2)
                   then breakout_down_block four_hour_high four_hour_low risk_reward
                          session_start candle_idx candle s2
                   else Inr s2)))"

text \<open>The maximum and the minimum of a non-empty column.\<close>

definition column_max :: "real list \<Rightarrow> real" where
  "column_max xs = fold max (tl xs) (hd xs)"

definition column_min :: "real list \<Rightarrow> real" where
  "column_min xs = fold min (tl xs) (hd xs)"

text \<open>
  One group of the \<^verbatim>\<open>groupby\<close> over the local dates (lines 50 to 181). The candles
  are read from \<open>df_ny\<close>, the copy made before any signal is written; the signals are
  written to \<open>df\<close>. Four hours are 14400 seconds.
\<close>

definition ny_day ::
  "ny_clock \<Rightarrow> nat \<Rightarrow> nat \<Rightarrow> real \<Rightarrow> ny_row dataframe \<Rightarrow> int \<Rightarrow> ny_row dataframe
     \<Rightarrow> py_error + ny_row dataframe" where
  "ny_day clock session_start_hour session_start_minute risk_reward df_ny date df =
     (let day_data = filter (\<lambda>c. local_date clock (fst c) = date) df_ny;
          session_start = session_open clock session_start_hour session_start_minute date;
          session_end = session_start + 14400;
          four_hour_candles = filter (\<lambda>c. fst c \<ge> session_start \<and> fst c < session_end) day_data
      in if length four_hour_candles = 0 then Inr df
         else
           (let four_hour_high = column_max (map (\<lambda>c. High (snd c)) four_hour_candles);
                four_hour_low = column_min (map (\<lambda>c. Low (snd c)) four_hour_candles);
                after_session = filter (\<lambda>c. fst c \<ge> session_end) day_data
            in if length after_session = 0 then Inr df
               else
                 (let df1 = fold (\<lambda>c d. if fst c \<in> set (map fst d)
                                          then set_loc (fst c)
                                                 (\<lambda>r. r\<lparr> four_hour_high_col := Some four_hour_high,
                                                         four_hour_low_col := Some four_hour_low \<rparr>) d
                                          else d)
                              after_session df
                  in case for_each (ny_candle four_hour_high four_hour_low risk_reward session_start)
                            after_session (flat_state, df1) of
                       Inl e \<Rightarrow> Inl e
                     | Inr s \<Rightarrow> Inr (snd s))))"

text \<open>
  \<^verbatim>\<open>NYSessionStrategy.generate_signals\<close> as a function of the frame's contents. The
  groups come in ascending order of the date.
\<close>

definition ny_scan ::
  "ny_clock \<Rightarrow> nat \<Rightarrow> nat \<Rightarrow> real \<Rightarrow> 'a candle_scheme dataframe \<Rightarrow> py_error + ny_row dataframe" where
  "ny_scan clock session_start_hour session_start_minute risk_reward df =
     (let df0 = map (\<lambda>(t, r). (t, ny_init_row r)) df;
          df_ny = df0;
          dates = sort (remdups (map (\<lambda>c. local_date clock (fst c)) df_ny))
      in for_each (ny_day clock session_start_hour session_start_minute risk_reward df_ny)
           dates df0)"

section \<open>Vocabulary of the signal contracts\<close>

text \<open>
  The OHLCV part of a row and of a frame (labels kept), and the signal columns of an
  annotated row. They are used to state what the generators return.
\<close>

definition ohlcv :: "'a candle_scheme \<Rightarrow> candle" where
  "ohlcv r = \<lparr> Open = Open r, High = High r, Low = Low r, Close = Close r, Volume = Volume r \<rparr>"

definition bars :: "'a candle_scheme dataframe \<Rightarrow> candle dataframe" where
  "bars df = map (\<lambda>(t, r). (t, ohlcv r)) df"

definition sig_of ::
  "'a signal_row_scheme \<Rightarrow> int \<times> real option \<times> real option \<times> real option \<times> timestamp option" where
  "sig_of r = (signal r, entry_price_col r, stop_loss_col r, target_col r, pattern_date_col r)"

definition no_signal :: "int \<times> real option \<times> real option \<times> real option \<times> timestamp option" where
  "no_signal = (0, None, None, None, None)"

text \<open>
  The hammer contract in the words of the specification: bar \<open>i\<close> is a pattern index
  (\<open>N \<le> i \<le> len - 2\<close>), it is a hammer, a downtrend over the \<open>N\<close> bars before it is
  confirmed (strict, or else relaxed), bar \<open>i + 1\<close> breaks out, and the risk is positive.
\<close>

definition downtrend_confirmed :: "'a candle_scheme dataframe \<Rightarrow> nat \<Rightarrow> nat \<Rightarrow> bool" where
  "downtrend_confirmed df i N =
     (detect_downtrend df i N True = Inr True \<or> detect_downtrend df i N False = Inr True)"

definition hammer_entry :: "nat \<Rightarrow> 'a candle_scheme dataframe \<Rightarrow> nat \<Rightarrow> bool" where
  "hammer_entry N df i =
     (N \<le> i \<and> i + 1 < length df
      \<and> is_hammer (snd (df ! i)) 0.25 2.5
      \<and> downtrend_confirmed df i N
      \<and> High (snd (df ! (i + 1))) > High (snd (df ! i))
      \<and> Open (snd (df ! (i + 1))) \<ge> High (snd (df ! i))
      \<and> Open (snd (df ! (i + 1))) - Low (snd (df ! i)) > 0)"

text \<open>
  The LONG annotation for the pattern at \<open>i\<close>: entry at the next bar's open, stop at the
  pattern bar's low, target at entry plus risk times \<open>R\<close>, pattern timestamp of bar \<open>i\<close>.
\<close>

definition long_signal ::
  "real \<Rightarrow> 'a candle_scheme dataframe \<Rightarrow> nat
     \<Rightarrow> int \<times> real option \<times> real option \<times> real option \<times> timestamp option" where
  "long_signal R df i =
     (1, Some (Open (snd (df ! (i + 1)))), Some (Low (snd (df ! i))),
      Some (Open (snd (df ! (i + 1)))
            + (Open (snd (df ! (i + 1))) - Low (snd (df ! i))) * R),
      Some (fst (df ! i)))"

text \<open>
  The ten-bar scenario: eight bars with strictly falling highs, a hammer (open 98, high
  100, low 90, close 100: body 2 of range 10, no upper wick) and a breakout bar (open
  101, high 105, close 103). The labels are 0 to 9.
\<close>

definition scenario_bars :: "candle dataframe" where
  "scenario_bars =
     [(0, \<lparr> Open = 119, High = 120, Low = 116, Close = 117, Volume = 1000 \<rparr>),
      (1, \<lparr> Open = 117, High = 118, Low = 114, Close = 115, Volume = 1000 \<rparr>),
      (2, \<lparr> Open = 115, High = 116, Low = 112, Close = 113, Volume = 1000 \<rparr>),
      (3, \<lparr> Open = 113, High = 114, Low = 110, Close = 111, Volume = 1000 \<rparr>),
      (4, \<lparr> Open = 111, High = 112, Low = 108, Close = 109, Volume = 1000 \<rparr>),
      (5, \<lparr> Open = 109, High = 110, Low = 106, Close = 107, Volume = 1000 \<rparr>),
      (6, \<lparr> Open = 107, High = 108, Low = 104, Close = 105, Volume = 1000 \<rparr>),
      (7, \<lparr> Open = 105, High = 106, Low = 102, Close = 103, Volume = 1000 \<rparr>),
      (8, \<lparr> Open = 98, High = 100, Low = 90, Close = 100, Volume = 1000 \<rparr>),
      (9, \<lparr> Open = 101, High = 105, Low = 100, Close = 103, Volume = 1000 \<rparr>)]"

text \<open>
  The states of the breakout state machine in the words of the specification: Flat is
  \<open>flat_state\<close>; BreakoutUp and BreakoutDown carry the tracked breakout high and low.
\<close>

definition up_state :: "real \<Rightarrow> real \<Rightarrow> breakout_state" where
  "up_state h l = \<lparr> in_breakout_up = True, in_breakout_down = False,
                    breakout_high = Some h, breakout_low = Some l \<rparr>"

definition down_state :: "real \<Rightarrow> real \<Rightarrow> breakout_state" where
  "down_state h l = \<lparr> in_breakout_up = False, in_breakout_down = True,
                      breakout_high = Some h, breakout_low = Some l \<rparr>"



text \<open>The states the loop can be in: the tracked extremes are set exactly during a breakout.\<close>

definition tracking :: "breakout_state \<Rightarrow> bool" where
  "tracking st =
     (if in_breakout_up st \<or> in_breakout_down st
      then \<not> (in_breakout_up st \<and> in_breakout_down st)
           \<and> breakout_high st \<noteq> None \<and> breakout_low st \<noteq> None
      else breakout_high st = None \<and> breakout_low st = None)"


section \<open>The generators as operations on the object store\<close>

text \<open>
  The caller's frame and the frames the generators allocate are objects of a store; a
  reference is a position in it. An object is a frame of OHLCV rows as the caller supplies
  it (\<open>Inl\<close>) or a frame annotated by the strategy (\<open>Inr\<close>). \<^verbatim>\<open>df.copy()\<close> allocates
  a new object with the same contents (a deep copy) at the next free position.
\<close>

type_synonym ('a, 'r) store = "('a dataframe + 'r dataframe) list"

definition df_copy :: "nat \<Rightarrow> ('a, 'r) store \<Rightarrow> py_error + (nat \<times> ('a, 'r) store)" where
  "df_copy ref store =
     (if ref < length store then Inr (length store, store @ [store ! ref])
      else Inl ValueError)"

text \<open>
  A statement that mutates the annotated frame behind a reference in place. A reference
  outside the store, or to a frame without the annotation columns, cannot occur where the
  generators use it; the model answers with an error there.
\<close>

definition mutate ::
  "nat \<Rightarrow> ('r dataframe \<Rightarrow> py_error + 'r dataframe) \<Rightarrow> ('a, 'r) store \<Rightarrow> py_error + ('a, 'r) store" where
  "mutate ref f store =
     (if ref < length store then
        (case store ! ref of
           Inl d \<Rightarrow> Inl ValueError
         | Inr d \<Rightarrow> (case f d of Inl e \<Rightarrow> Inl e | Inr d' \<Rightarrow> Inr (store[ref := Inr d'])))
      else Inl ValueError)"

text \<open>
  The assignments of the annotation columns to the copy (\<^verbatim>\<open>df['signal'] = 0\<close> and so
  on): every row gets the defaults, whether or not the columns existed.
\<close>

definition init_columns ::
  "nat \<Rightarrow> ('a candle_scheme \<Rightarrow> 'r) \<Rightarrow> ('r \<Rightarrow> 'r)
     \<Rightarrow> ('a candle_scheme, 'r) store \<Rightarrow> py_error + ('a candle_scheme, 'r) store" where
  "init_columns ref init reinit store =
     (if ref < length store then
        Inr (store[ref := Inr (case store ! ref of
                                 Inl d \<Rightarrow> map (\<lambda>(t, r). (t, init r)) d
                               | Inr d \<Rightarrow> map (\<lambda>(t, r). (t, reinit r)) d)])
      else Inl ValueError)"

definition frame_length :: "nat \<Rightarrow> ('a, 'r) store \<Rightarrow> nat" where
  "frame_length ref store = (case store ! ref of Inl d \<Rightarrow> length d | Inr d \<Rightarrow> length d)"

text \<open>
  \<^verbatim>\<open>HammerStrategy.generate_signals(df)\<close>: copy, initialise the columns of the copy,
  scan the copy in place, return the reference to the copy.
\<close>

definition HammerStrategy_generate_signals ::
  "nat \<Rightarrow> real \<Rightarrow> nat \<Rightarrow> ('a candle_scheme, hammer_row) store
     \<Rightarrow> py_error + (nat \<times> ('a candle_scheme, hammer_row) store)" where
  "HammerStrategy_generate_signals downtrend_candles risk_reward df_arg store =
     (case df_copy df_arg store of
        Inl e \<Rightarrow> Inl e
      | Inr (df, store1) \<Rightarrow>
         (case init_columns df hammer_init_row hammer_init_row store1 of
            Inl e \<Rightarrow> Inl e
          | Inr store2 \<Rightarrow>
             (case for_each (\<lambda>i. mutate df (hammer_step downtrend_candles risk_reward i))
                     [downtrend_candles ..< frame_length df store2 - 1] store2 of
                Inl e \<Rightarrow> Inl e
              | Inr store3 \<Rightarrow> Inr (df, store3))))"

definition ShootingStarStrategy_generate_signals ::
  "nat \<Rightarrow> real \<Rightarrow> nat \<Rightarrow> ('a candle_scheme, star_row) store
     \<Rightarrow> py_error + (nat \<times> ('a candle_scheme, star_row) store)" where
  "ShootingStarStrategy_generate_signals uptrend_candles risk_reward df_arg store =
     (case df_copy df_arg store of
        Inl e \<Rightarrow> Inl e
      | Inr (df, store1) \<Rightarrow>
         (case init_columns df star_init_row star_init_row store1 of
            Inl e \<Rightarrow> Inl e
          | Inr store2 \<Rightarrow>
             (case for_each (\<lambda>i. mutate df (star_step uptrend_candles risk_reward i))
                     [uptrend_candles ..< frame_length df store2 - 1] store2 of
                Inl e \<Rightarrow> Inl e
              | Inr store3 \<Rightarrow> Inr (df, store3))))"

text \<open>
  \<^verbatim>\<open>NYSessionStrategy.generate_signals(df)\<close>: copy, initialise the columns, copy
  again for the New York view \<open>df_ny\<close> (a time-zone conversion keeps the instants), then
  one pass per local date that reads \<open>df_ny\<close> and writes \<open>df\<close>.
\<close>

definition ny_dates :: "ny_clock \<Rightarrow> nat \<Rightarrow> ('a candle_scheme, ny_row) store \<Rightarrow> int list" where
  "ny_dates clock ref store =
     (case store ! ref of
        Inl d \<Rightarrow> sort (remdups (map (\<lambda>c. local_date clock (fst c)) d))
      | Inr d \<Rightarrow> sort (remdups (map (\<lambda>c. local_date clock (fst c)) d)))"

definition NYSessionStrategy_generate_signals ::
  "ny_clock \<Rightarrow> nat \<Rightarrow> nat \<Rightarrow> real \<Rightarrow> nat \<Rightarrow> ('a candle_scheme, ny_row) store
     \<Rightarrow> py_error + (nat \<times> ('a candle_scheme, ny_row) store)" where
  "NYSessionStrategy_generate_signals clock session_start_hour session_start_minute risk_reward
       df_arg store =
     (case df_copy df_arg store of
        Inl e \<Rightarrow> Inl e
      | Inr (df, store1) \<Rightarrow>
         (case init_columns df ny_init_row ny_init_row store1 of
            Inl e \<Rightarrow> Inl e
          | Inr store2 \<Rightarrow>
             (case df_copy df store2 of
                Inl e \<Rightarrow> Inl e
              | Inr (df_ny, store3) \<Rightarrow>
                 (case for_each
                         (\<lambda>date s.
                            (case s ! df_ny of
                               Inl d \<Rightarrow> Inl ValueError
                             | Inr day_source \<Rightarrow>
                                 mutate df (ny_day clock session_start_hour session_start_minute
                                              risk_reward day_source date) s))
                         (ny_dates clock df_ny store3) store3 of
                    Inl e \<Rightarrow> Inl e
                  | Inr store4 \<Rightarrow> Inr (df, store4)))))"

text \<open>The OHLCV rows of an object, with their labels.\<close>

definition object_bars :: "'a candle_scheme dataframe + 'b candle_scheme dataframe \<Rightarrow> candle dataframe" where
  "object_bars obj = (case obj of Inl d \<Rightarrow> bars d | Inr d \<Rightarrow> bars d)"

section \<open>Pattern detector: single-bar patterns\<close>

lemma wick_decomposition:
  fixes o' c h l :: real
  shows "\<bar>c - o'\<bar> + (min o' c - l) + (h - max o' c) = h - l"
  by (simp add: min_def max_def)

lemma dominant_wicks_exceed_range:
  fixes b lw uw r :: real
  assumes "0 < r" "0 \<le> b" "0.6 * r \<le> lw" "0.6 * r \<le> uw" "b + lw + uw = r"
  shows False
  using assms by linarith

lemma hammer_lower_dominant:
  assumes "is_hammer row br wr"
  shows "High row - Low row > 0 \<and> min (Open row) (Close row) - Low row \<ge> 0.6 * (High row - Low row)"
proof -
  from assms have pos: "High row - Low row > 0"
    by (auto simp: is_hammer_def Let_def split: if_splits)
  from assms have "(min (Open row) (Close row) - Low row) / (High row - Low row) \<ge> 0.6"
    by (auto simp: is_hammer_def Let_def split: if_splits)
  with pos have "min (Open row) (Close row) - Low row \<ge> 0.6 * (High row - Low row)"
    by (simp add: pos_le_divide_eq)
  with pos show ?thesis by simp
qed

lemma star_upper_dominant:
  assumes "is_shooting_star row br wr"
  shows "High row - max (Open row) (Close row) \<ge> 0.6 * (High row - Low row)"
proof -
  from assms have pos: "High row - Low row > 0"
    by (auto simp: is_shooting_star_def Let_def split: if_splits)
  from assms have "(High row - max (Open row) (Close row)) / (High row - Low row) \<ge> 0.6"
    by (auto simp: is_shooting_star_def Let_def split: if_splits)
  with pos show ?thesis
    by (simp add: pos_le_divide_eq)
qed

text \<open>
  Claim C9. With the default parameters (body ratio 0.25, wick ratio 2.5) no bar is both a
  hammer and a shooting star: the two dominant-wick conditions need 1.2 times the range,
  while body, lower wick and upper wick add up to exactly the range.
\<close>

theorem hammer_shooting_star_exclusive:
  "\<not> (is_hammer row 0.25 2.5 \<and> is_shooting_star row 0.25 2.5)"
proof
  assume both: "is_hammer row 0.25 2.5 \<and> is_shooting_star row 0.25 2.5"
  from both hammer_lower_dominant [of row "0.25" "2.5"]
  have pos: "High row - Low row > 0"
    and lo: "min (Open row) (Close row) - Low row \<ge> 0.6 * (High row - Low row)"
    by simp_all
  from both star_upper_dominant [of row "0.25" "2.5"]
  have up: "High row - max (Open row) (Close row) \<ge> 0.6 * (High row - Low row)"
    by simp
  have sum: "\<bar>Close row - Open row\<bar> + (min (Open row) (Close row) - Low row)
      + (High row - max (Open row) (Close row)) = High row - Low row"
    by (rule wick_decomposition)
  have "\<bar>Close row - Open row\<bar> \<ge> 0" by simp
  from dominant_wicks_exceed_range [OF pos this lo up sum] show False .
qed

section \<open>Pattern detector: trends\<close>

lemma iloc_in_range: "k < length df \<Longrightarrow> iloc df k = Inr (snd (df ! k))"
  by (simp add: iloc_def)

lemma strict_down_loop_eq:
  assumes "index \<le> length df" "\<forall>k\<in>set ks. 1 \<le> k \<and> k \<le> index"
  shows "strict_down_loop df index ks =
     Inr (\<forall>k\<in>set ks. k < index \<and> High (snd (df ! (index - k))) < High (snd (df ! (index - k - 1))))"
  using assms(2)
proof (induction ks)
  case Nil
  show ?case by simp
next
  case (Cons k ks)
  from Cons.prems have k: "1 \<le> k" "k \<le> index" and rest: "\<forall>j\<in>set ks. 1 \<le> j \<and> j \<le> index"
    by simp_all
  show ?case
  proof (cases "k < index")
    case False
    with k show ?thesis by (simp add: Let_def)
  next
    case True
    with k assms(1) have a: "nat (int index - int k) = index - k" "index - k < length df"
      and b: "nat (int index - int k - 1) = index - Suc k" "index - Suc k < length df"
      and c: "\<not> int index - int k - 1 < 0"
      by linarith+
    show ?thesis
      using Cons.IH [OF rest] True
      by (auto simp: Let_def a b c iloc_in_range not_le)
  qed
qed

lemma strict_up_loop_eq:
  assumes "index \<le> length df" "\<forall>k\<in>set ks. 1 \<le> k \<and> k \<le> index"
  shows "strict_up_loop df index ks =
     Inr (\<forall>k\<in>set ks. k < index \<and> Low (snd (df ! (index - k))) > Low (snd (df ! (index - k - 1))))"
  using assms(2)
proof (induction ks)
  case Nil
  show ?case by simp
next
  case (Cons k ks)
  from Cons.prems have k: "1 \<le> k" "k \<le> index" and rest: "\<forall>j\<in>set ks. 1 \<le> j \<and> j \<le> index"
    by simp_all
  show ?case
  proof (cases "k < index")
    case False
    with k show ?thesis by (simp add: Let_def)
  next
    case True
    with k assms(1) have a: "nat (int index - int k) = index - k" "index - k < length df"
      and b: "nat (int index - int k - 1) = index - Suc k" "index - Suc k < length df"
      and c: "\<not> int index - int k - 1 < 0"
      by linarith+
    show ?thesis
      using Cons.IH [OF rest] True
      by (auto simp: Let_def a b c iloc_in_range not_le)
  qed
qed

lemma bearish_count_loop_eq:
  assumes "index \<le> length df" "\<forall>k\<in>set ks. 1 \<le> k \<and> k \<le> index"
  shows "bearish_count_loop df index ks n =
     Inr (n + length (filter (\<lambda>k. Close (snd (df ! (index - k))) < Open (snd (df ! (index - k)))) ks))"
  using assms(2)
proof (induction ks arbitrary: n)
  case Nil
  show ?case by simp
next
  case (Cons k ks)
  from Cons.prems have k: "1 \<le> k" "k \<le> index" and rest: "\<forall>j\<in>set ks. 1 \<le> j \<and> j \<le> index"
    by simp_all
  from k assms(1) have a: "nat (int index - int k) = index - k" "index - k < length df"
    by linarith+
  show ?case
    by (simp add: Let_def a iloc_in_range Cons.IH [OF rest])
qed

lemma bullish_count_loop_eq:
  assumes "index \<le> length df" "\<forall>k\<in>set ks. 1 \<le> k \<and> k \<le> index"
  shows "bullish_count_loop df index ks n =
     Inr (n + length (filter (\<lambda>k. Close (snd (df ! (index - k))) > Open (snd (df ! (index - k)))) ks))"
  using assms(2)
proof (induction ks arbitrary: n)
  case Nil
  show ?case by simp
next
  case (Cons k ks)
  from Cons.prems have k: "1 \<le> k" "k \<le> index" and rest: "\<forall>j\<in>set ks. 1 \<le> j \<and> j \<le> index"
    by simp_all
  from k assms(1) have a: "nat (int index - int k) = index - k" "index - k < length df"
    by linarith+
  show ?case
    by (simp add: Let_def a iloc_in_range Cons.IH [OF rest])
qed

lemma window_in_range: "N \<le> index \<Longrightarrow> \<forall>k\<in>set [1 ..< N + 1]. 1 \<le> k \<and> k \<le> index"
  by auto





section \<open>Portfolio: opening a position\<close>

lemma cost_with_commission: "(c::real) + c * k = c * (1 + k)"
  by (simp add: distrib_left)

lemma open_position_cases:
  "open_position d e s t sy sz sd p =
     (let rps = (if sd = LONG then e - s else s - e);
          q = min (py_int (cash p * sz / rps)) (py_int (cash p * 0.98 / (e * (1 + slippage p))));
          total = real_of_int q * (e * (1 + slippage p)) * (1 + commission p)
      in if current_position p \<noteq> None then (Inr False, p)
         else if rps \<le> 0 then (Inr False, p)
         else if e * (1 + slippage p) = 0 then (Inl ZeroDivisionError, p)
         else if q \<le> 0 then (Inr False, p)
         else if total > cash p then (Inr False, p)
         else (Inr True, p\<lparr> current_position := Some (Position_init d (e * (1 + slippage p)) q s t sy sd),
                               cash := cash p - total \<rparr>))"
  unfolding open_position_def Let_def cost_with_commission by (rule refl)

lemma py_int_pos_floor: "0 < py_int x \<Longrightarrow> py_int x = \<lfloor>x\<rfloor>"
  by (auto simp: py_int_def split: if_splits)

lemma min_py_int_pos_floor:
  assumes "0 < min (py_int x) (py_int y)"
  shows "min (py_int x) (py_int y) = min \<lfloor>x\<rfloor> \<lfloor>y\<rfloor>"
proof -
  from assms have x: "0 < py_int x" and y: "0 < py_int y"
    by (simp_all add: min_less_iff_conj)
  have "py_int x = \<lfloor>x\<rfloor>" by (rule py_int_pos_floor [OF x])
  moreover have "py_int y = \<lfloor>y\<rfloor>" by (rule py_int_pos_floor [OF y])
  ultimately show ?thesis by simp
qed





lemma open_position_success:
  assumes "fst (open_position d e s t sy sz sd p) = Inr True"
  shows "0 < min (py_int (cash p * sz / (if sd = LONG then e - s else s - e)))
                 (py_int (cash p * 0.98 / (e * (1 + slippage p))))"
    and "snd (open_position d e s t sy sz sd p) =
      p\<lparr> current_position := Some (Position_init d (e * (1 + slippage p))
             (min (py_int (cash p * sz / (if sd = LONG then e - s else s - e)))
                  (py_int (cash p * 0.98 / (e * (1 + slippage p))))) s t sy sd),
         cash := cash p - real_of_int (min (py_int (cash p * sz / (if sd = LONG then e - s else s - e)))
                  (py_int (cash p * 0.98 / (e * (1 + slippage p))))) * (e * (1 + slippage p)) * (1 + commission p) \<rparr>"
proof -
  define rps where "rps = (if sd = LONG then e - s else s - e)"
  define q where "q = min (py_int (cash p * sz / rps)) (py_int (cash p * 0.98 / (e * (1 + slippage p))))"
  define total where "total = real_of_int q * (e * (1 + slippage p)) * (1 + commission p)"
  define p' where "p' = p\<lparr> current_position := Some (Position_init d (e * (1 + slippage p)) q s t sy sd),
                               cash := cash p - total \<rparr>"
  have eq: "open_position d e s t sy sz sd p =
      (if current_position p \<noteq> None then (Inr False, p)
         else if rps \<le> 0 then (Inr False, p)
         else if e * (1 + slippage p) = 0 then (Inl ZeroDivisionError, p)
         else if q \<le> 0 then (Inr False, p)
         else if total > cash p then (Inr False, p)
         else (Inr True, p'))"
    unfolding rps_def q_def total_def p'_def
    by (simp only: open_position_cases Let_def)
  from assms have "0 < q \<and> snd (open_position d e s t sy sz sd p) = p'"
    unfolding eq by (simp split: if_splits)
  then show "0 < min (py_int (cash p * sz / (if sd = LONG then e - s else s - e)))
                 (py_int (cash p * 0.98 / (e * (1 + slippage p))))"
    and "snd (open_position d e s t sy sz sd p) =
      p\<lparr> current_position := Some (Position_init d (e * (1 + slippage p))
             (min (py_int (cash p * sz / (if sd = LONG then e - s else s - e)))
                  (py_int (cash p * 0.98 / (e * (1 + slippage p))))) s t sy sd),
         cash := cash p - real_of_int (min (py_int (cash p * sz / (if sd = LONG then e - s else s - e)))
                  (py_int (cash p * 0.98 / (e * (1 + slippage p))))) * (e * (1 + slippage p)) * (1 + commission p) \<rparr>"
    unfolding p'_def total_def q_def rps_def by blast+
qed

text \<open>
  Claim C4. After a successful \<open>open_position\<close> the created position has quantity
  \<open>min (floor (cash * riskFraction / riskPerShare))
  (floor (cash * 0.98 / (entryPrice * (1 + slippage))))\<close>, its stored entry price is
  \<open>entryPrice * (1 + slippage)\<close>, and the cash has decreased by exactly
  \<open>quantity * entryPrice * (1 + slippage) * (1 + commission)\<close>.
\<close>

theorem open_position_sizing:
  assumes "fst (open_position d e s t sy sz sd p) = Inr True"
  shows "let rps = (if sd = LONG then e - s else s - e);
             q = min \<lfloor>cash p * sz / rps\<rfloor> \<lfloor>cash p * 0.98 / (e * (1 + slippage p))\<rfloor>;
             p' = snd (open_position d e s t sy sz sd p)
         in current_position p' = Some (Position_init d (e * (1 + slippage p)) q s t sy sd)
            \<and> quantity (the (current_position p')) = q
            \<and> entry_price (the (current_position p')) = e * (1 + slippage p)
            \<and> cash p' = cash p - real_of_int q * e * (1 + slippage p) * (1 + commission p)"
proof -
  let ?x = "cash p * sz / (if sd = LONG then e - s else s - e)"
  let ?y = "cash p * 0.98 / (e * (1 + slippage p))"
  have q: "min (py_int ?x) (py_int ?y) = min \<lfloor>?x\<rfloor> \<lfloor>?y\<rfloor>"
    by (rule min_py_int_pos_floor [OF open_position_success(1) [OF assms]])
  show ?thesis
    unfolding Let_def open_position_success(2) [OF assms] q
    by (simp add: Position_init_def mult.assoc)
qed
text \<open>Witness: 4545 shares bought at 101 with a stop at 90 on a fresh portfolio.\<close>

theorem open_position_sizing_witness:
  "fst (open_position 0 101 90 117.5 ''STOCK'' 0.1 LONG (Portfolio_init 500000 0.0003 0.0001)) = Inr True
   \<and> quantity (the (current_position (snd (open_position 0 101 90 117.5 ''STOCK'' 0.1 LONG
         (Portfolio_init 500000 0.0003 0.0001))))) = 4545
   \<and> cash (snd (open_position 0 101 90 117.5 ''STOCK'' 0.1 LONG
         (Portfolio_init 500000 0.0003 0.0001))) = 500000 - 4545 * 101 * 1.0001 * 1.0003"
proof -
  let ?p = "Portfolio_init 500000 0.0003 0.0001"
  have h: "fst (open_position 0 101 90 117.5 ''STOCK'' 0.1 LONG ?p) = Inr True"
    by (simp add: open_position_def Portfolio_init_def py_int_def Let_def)
  from open_position_sizing [OF h] h show ?thesis
    by (simp add: Let_def Portfolio_init_def Position_init_def)
qed

section \<open>Portfolio: single open position\<close>

lemma open_position_rejected_while_open:
  "open_position d e s t sy sz sd (p\<lparr> current_position := Some pos \<rparr>)
     = (Inr False, p\<lparr> current_position := Some pos \<rparr>)"
  by (simp add: open_position_def)

lemma close_position_rejected_while_flat:
  "close_position d x reason (p\<lparr> current_position := None \<rparr>)
     = (Inr False, p\<lparr> current_position := None \<rparr>)"
  by (simp add: close_position_def)

lemma open_position_flat_after:
  "(current_position (snd (open_position d e s t sy sz sd p)) = None) =
     (current_position p = None \<and> fst (open_position d e s t sy sz sd p) \<noteq> Inr True)"
  unfolding open_position_cases Let_def by simp

lemma open_position_True_was_flat:
  "fst (open_position d e s t sy sz sd p) = Inr True \<Longrightarrow> current_position p = None"
  unfolding open_position_cases Let_def by (simp split: if_splits)

lemma Position_close_cases:
  "fst (Position_close d x reason pos) = Inr () \<or> fst (Position_close d x reason pos) = Inl ZeroDivisionError"
  by (simp add: Position_close_def Let_def)

lemma close_position_flat_after:
  "(current_position (snd (close_position d x reason p)) = None) =
     (current_position p = None \<or> fst (close_position d x reason p) = Inr True)"
  by (auto simp: close_position_def Let_def split: option.splits prod.splits sum.splits)

lemma close_position_True_was_open:
  "fst (close_position d x reason p) = Inr True \<Longrightarrow> current_position p \<noteq> None"
  by (auto simp: close_position_def Let_def split: option.splits prod.splits sum.splits)

lemma run_calls_alternates:
  "alternates (current_position p = None) (successes (fst (run_calls cs p)))
   \<and> (current_position (snd (run_calls cs p)) = None)
       = (if even (length (successes (fst (run_calls cs p)))) then current_position p = None
          else current_position p \<noteq> None)"
proof (induction cs arbitrary: p)
  case Nil
  show ?case by simp
next
  case (Cons c cs)
  show ?case
  proof (cases c)
    case (OpenCall d e s t sy sz sd)
    let ?r = "open_position d e s t sy sz sd p"
    from Cons.IH [of "snd ?r"] open_position_flat_after [of d e s t sy sz sd p]
      open_position_True_was_flat [of d e s t sy sz sd p]
    show ?thesis
      unfolding OpenCall by (auto simp: case_prod_beta Let_def)
  next
    case (CloseCall d x reason)
    let ?r = "close_position d x reason p"
    from Cons.IH [of "snd ?r"] close_position_flat_after [of d x reason p]
      close_position_True_was_open [of d x reason p]
    show ?thesis
      unfolding CloseCall by (auto simp: case_prod_beta Let_def)
  qed
qed

lemma alternates_counts:
  "alternates b xs \<Longrightarrow>
     int (length (filter (\<lambda>x. x) xs)) - int (length (filter Not xs))
       = (if even (length xs) then 0 else if b then 1 else -1)"
proof (induction xs arbitrary: b)
  case Nil
  show ?case by simp
next
  case (Cons a xs)
  from Cons.prems have a: "a = b" and rest: "alternates (\<not> b) xs" by simp_all
  from Cons.IH [OF rest] a show ?case by (cases b) (simp_all split: if_splits)
qed

text \<open>
  Claim C6. The portfolio has one slot for an open position. After any finite sequence of
  \<open>open_position\<close> and \<open>close_position\<close> calls on a fresh portfolio, the successful
  opens and closes alternate strictly, starting with an open; a position is open exactly
  when the number of successful calls is odd, that is when the successful opens outnumber
  the successful closes (by exactly one); an open attempt while a position is open and a
  close attempt while flat return False and leave the portfolio as it was.
\<close>

theorem single_open_position:
  "let r = run_calls cs (Portfolio_init c cm sl); succ = successes (fst r)
   in alternates True succ
      \<and> (current_position (snd r) \<noteq> None) = odd (length succ)
      \<and> (current_position (snd r) \<noteq> None)
          = (length (filter (\<lambda>x. x) succ) > length (filter Not succ))
      \<and> length (filter (\<lambda>x. x) succ)
          = length (filter Not succ) + (if current_position (snd r) = None then 0 else 1)
      \<and> open_position d e s t sy sz sd (p\<lparr> current_position := Some pos \<rparr>)
          = (Inr False, p\<lparr> current_position := Some pos \<rparr>)
      \<and> close_position d' x reason (p\<lparr> current_position := None \<rparr>)
          = (Inr False, p\<lparr> current_position := None \<rparr>)"
proof -
  let ?p0 = "Portfolio_init c cm sl"
  let ?r = "run_calls cs ?p0"
  let ?succ = "successes (fst ?r)"
  have flat: "current_position ?p0 = None" by (simp add: Portfolio_init_def)
  from run_calls_alternates [of ?p0 cs] flat
  have alt: "alternates True ?succ"
    and par: "(current_position (snd ?r) = None) = even (length ?succ)"
    by simp_all
  from alternates_counts [OF alt]
  have cnt: "int (length (filter (\<lambda>x. x) ?succ)) - int (length (filter Not ?succ))
       = (if even (length ?succ) then 0 else 1)" by simp
  from alt par cnt show ?thesis
    unfolding Let_def
    by (auto simp: open_position_rejected_while_open close_position_rejected_while_flat)
qed

section \<open>Engine: configuration\<close>

lemma py_or_supplied: "v \<noteq> 0 \<Longrightarrow> py_or (Some v) d = v"
  by (simp add: py_or_def)

text \<open>
  Claim C8. A caller who supplies commission 0 and slippage 0 (or initial capital 0) does
  not get them: \<open>0 or Config.X\<close> is \<open>Config.X\<close>, so the engine and the portfolio of
  the run use the defaults 0.0003, 0.0001 and 500000 instead of the supplied zeros.
\<close>

theorem engine_zero_override_ignored:
  "engine_commission (BacktestEngine_init (Some 100000) (Some 0) (Some 0)) = 0.0003
   \<and> engine_slippage (BacktestEngine_init (Some 100000) (Some 0) (Some 0)) = 0.0001
   \<and> engine_initial_capital (BacktestEngine_init (Some 0) None None) = 500000
   \<and> commission (run_portfolio (BacktestEngine_init (Some 100000) (Some 0) (Some 0))) = 0.0003
   \<and> slippage (run_portfolio (BacktestEngine_init (Some 100000) (Some 0) (Some 0))) = 0.0001"
  by (simp add: BacktestEngine_init_def py_or_def run_portfolio_def Portfolio_init_def
      COMMISSION_def SLIPPAGE_def INITIAL_CAPITAL_def)

section \<open>Engine: exits\<close>



lemma ignore_result_snd [simp]: "snd (ignore_result r) = snd r"
  by (auto simp: ignore_result_def split: prod.splits sum.splits)




lemma update_equity_positions [simp]: "positions (update_equity d c p) = positions p"
  by (simp add: update_equity_def Let_def)







section \<open>Frames: labels and bars\<close>

lemma set_loc_length [simp]: "length (set_loc l f df) = length df"
  by (simp add: set_loc_def)

lemma set_loc_labels [simp]: "map fst (set_loc l f df) = map fst df"
  by (induction df) (auto simp: set_loc_def)

lemma set_loc_nth:
  "k < length df \<Longrightarrow>
     set_loc l f df ! k = (if fst (df ! k) = l then (fst (df ! k), f (snd (df ! k))) else df ! k)"
  by (simp add: set_loc_def case_prod_beta)

lemma distinct_labels_nth:
  "distinct (map fst df) \<Longrightarrow> j < length df \<Longrightarrow> k < length df \<Longrightarrow>
     (fst (df ! j) = fst (df ! k)) = (j = k)"
  using nth_eq_iff_index_eq [of "map fst df" j k] by simp

lemma bars_length [simp]: "length (bars df) = length df"
  by (simp add: bars_def)

lemma bars_nth: "k < length df \<Longrightarrow> bars df ! k = (fst (df ! k), ohlcv (snd (df ! k)))"
  by (simp add: bars_def case_prod_beta)

lemma bars_labels [simp]: "map fst (bars df) = map fst df"
  by (induction df) (auto simp: bars_def)

lemma ohlcv_fields [simp]:
  "Open (ohlcv r) = Open r" "High (ohlcv r) = High r" "Low (ohlcv r) = Low r"
  "Close (ohlcv r) = Close r" "Volume (ohlcv r) = Volume r"
  by (simp_all add: ohlcv_def)

lemma bars_set_loc:
  assumes "\<And>r. ohlcv (f r) = ohlcv r"
  shows "bars (set_loc l f df) = bars df"
  by (induction df) (auto simp: bars_def set_loc_def assms)

lemma bars_eq_nth:
  assumes "bars df = bars df'" "k < length df"
  shows "fst (df ! k) = fst (df' ! k)" "ohlcv (snd (df ! k)) = ohlcv (snd (df' ! k))"
proof -
  from assms(1) have len: "length df = length df'"
    by (metis bars_length)
  from assms(2) len have "bars df ! k = (fst (df ! k), ohlcv (snd (df ! k)))"
    and "bars df' ! k = (fst (df' ! k), ohlcv (snd (df' ! k)))"
    by (simp_all add: bars_nth)
  with assms(1) show "fst (df ! k) = fst (df' ! k)" "ohlcv (snd (df ! k)) = ohlcv (snd (df' ! k))"
    by simp_all
qed

lemma bars_eq_fields:
  assumes "bars df = bars df'" "k < length df"
  shows "Open (snd (df ! k)) = Open (snd (df' ! k))" "High (snd (df ! k)) = High (snd (df' ! k))"
    "Low (snd (df ! k)) = Low (snd (df' ! k))" "Close (snd (df ! k)) = Close (snd (df' ! k))"
  using bars_eq_nth(2) [OF assms] by (metis ohlcv_fields)+

lemma is_hammer_ohlcv: "is_hammer (ohlcv r) br wr = is_hammer r br wr"
  by (simp add: is_hammer_def)

lemma is_shooting_star_ohlcv: "is_shooting_star (ohlcv r) br wr = is_shooting_star r br wr"
  by (simp add: is_shooting_star_def)

lemma iloc_bars: "iloc (bars df) k = (case iloc df k of Inl e \<Rightarrow> Inl e | Inr r \<Rightarrow> Inr (ohlcv r))"
  by (simp add: iloc_def bars_nth)

lemma strict_down_loop_bars: "strict_down_loop (bars df) i ks = strict_down_loop df i ks"
  by (induction ks) (auto simp: iloc_bars Let_def split: sum.splits)

lemma strict_up_loop_bars: "strict_up_loop (bars df) i ks = strict_up_loop df i ks"
  by (induction ks) (auto simp: iloc_bars Let_def split: sum.splits)

lemma bearish_count_loop_bars: "bearish_count_loop (bars df) i ks n = bearish_count_loop df i ks n"
  by (induction ks arbitrary: n) (auto simp: iloc_bars Let_def split: sum.splits)

lemma bullish_count_loop_bars: "bullish_count_loop (bars df) i ks n = bullish_count_loop df i ks n"
  by (induction ks arbitrary: n) (auto simp: iloc_bars Let_def split: sum.splits)

lemma detect_downtrend_bars: "detect_downtrend (bars df) i N s = detect_downtrend df i N s"
  by (simp add: detect_downtrend_def strict_down_loop_bars bearish_count_loop_bars)

lemma detect_uptrend_bars: "detect_uptrend (bars df) i N s = detect_uptrend df i N s"
  by (simp add: detect_uptrend_def strict_up_loop_bars bullish_count_loop_bars)

lemma detect_downtrend_cong:
  "bars df = bars df' \<Longrightarrow> detect_downtrend df i N s = detect_downtrend df' i N s"
  by (metis detect_downtrend_bars)

lemma detect_uptrend_cong:
  "bars df = bars df' \<Longrightarrow> detect_uptrend df i N s = detect_uptrend df' i N s"
  by (metis detect_uptrend_bars)

lemma detect_downtrend_returns:
  assumes "i \<le> length df"
  shows "\<exists>b. detect_downtrend df i N s = Inr b"
proof (cases "N \<le> i")
  case False
  then show ?thesis by (auto simp: detect_downtrend_def)
next
  case True
  note w = window_in_range [OF True]
  from True have nl: "\<not> i < N" by simp
  show ?thesis
    unfolding detect_downtrend_def strict_down_loop_eq [OF assms w]
      bearish_count_loop_eq [OF assms w]
    by (simp only: nl if_False sum.case) (cases s; simp)
qed

lemma detect_uptrend_returns:
  assumes "i \<le> length df"
  shows "\<exists>b. detect_uptrend df i N s = Inr b"
proof (cases "N \<le> i")
  case False
  then show ?thesis by (auto simp: detect_uptrend_def)
next
  case True
  note w = window_in_range [OF True]
  from True have nl: "\<not> i < N" by simp
  show ?thesis
    unfolding detect_uptrend_def strict_up_loop_eq [OF assms w]
      bullish_count_loop_eq [OF assms w]
    by (simp only: nl if_False sum.case) (cases s; simp)
qed

section \<open>Reversal strategies: one step of the scan\<close>

lemma set_loc_nth_fst: "k < length df \<Longrightarrow> fst (set_loc l f df ! k) = fst (df ! k)"
  by (simp add: set_loc_nth)

lemma set_loc_nth_ohlcv:
  assumes "\<And>r. ohlcv (f r) = ohlcv r" "k < length df"
  shows "ohlcv (snd (set_loc l f df ! k)) = ohlcv (snd (df ! k))"
  using assms by (simp add: set_loc_nth)

lemma set_loc_nth_sig:
  assumes "\<And>r. sig_of (f r) = sig_of r" "k < length df"
  shows "sig_of (snd (set_loc l f df ! k)) = sig_of (snd (df ! k))"
  using assms by (simp add: set_loc_nth)

lemma set_loc_nth_other:
  assumes "distinct (map fst df)" "k < length df" "j < length df" "j \<noteq> k"
  shows "set_loc (fst (df ! k)) f df ! j = df ! j"
  using assms by (simp add: set_loc_nth distinct_labels_nth)

lemma set_loc_nth_same:
  assumes "k < length df"
  shows "set_loc (fst (df ! k)) f df ! k = (fst (df ! k), f (snd (df ! k)))"
  using assms by (simp add: set_loc_nth)

lemma hammer_flags_ohlcv [simp]:
  "ohlcv (r\<lparr> is_hammer_col := x \<rparr>) = ohlcv r"
  "ohlcv (r\<lparr> has_downtrend_col := y \<rparr>) = ohlcv r"
  "ohlcv (r\<lparr> signal := a, entry_price_col := b, stop_loss_col := c, target_col := d',
            pattern_date_col := e \<rparr>) = ohlcv r"
  by (simp_all add: ohlcv_def)

lemma hammer_flags_sig [simp]:
  "sig_of (r\<lparr> is_hammer_col := x \<rparr>) = sig_of r"
  "sig_of (r\<lparr> has_downtrend_col := y \<rparr>) = sig_of r"
  by (simp_all add: sig_of_def)

lemma hammer_step_effect:
  fixes df :: "hammer_row dataframe"
  assumes d: "distinct (map fst df)" and i: "i + 1 < length df"
  shows "\<exists>df'. hammer_step N R i df = Inr df' \<and> bars df' = bars df \<and>
     (\<forall>j<length df. sig_of (snd (df' ! j)) =
        (if j = i + 1 \<and> is_hammer (snd (df ! i)) 0.25 2.5 \<and> downtrend_confirmed df i N
             \<and> High (snd (df ! (i + 1))) > High (snd (df ! i))
             \<and> Open (snd (df ! (i + 1))) \<ge> High (snd (df ! i))
             \<and> Open (snd (df ! (i + 1))) - Low (snd (df ! i)) > 0
         then long_signal R df i else sig_of (snd (df ! j))))"
proof -
  define h where "h = is_hammer (snd (df ! i)) 0.25 2.5"
  define df1 where "df1 = set_loc (fst (df ! i)) (\<lambda>r. r\<lparr> is_hammer_col := h \<rparr>) df"
  from i have ii: "i < length df" by simp
  have il: "iloc df i = Inr (snd (df ! i))" using ii by (simp add: iloc_def)
  have b1: "bars df1 = bars df" unfolding df1_def by (rule bars_set_loc) simp
  have len1: "length df1 = length df" by (simp add: df1_def)
  have s1: "\<forall>j<length df. sig_of (snd (df1 ! j)) = sig_of (snd (df ! j))"
    unfolding df1_def by (simp add: set_loc_nth_sig)
  have step1: "hammer_step N R i df =
     (if h then
        (case detect_downtrend df1 i N True of
           Inl e \<Rightarrow> Inl e
         | Inr strict_downtrend \<Rightarrow>
            (case (if \<not> strict_downtrend then detect_downtrend df1 i N False
                   else Inr strict_downtrend) of
               Inl e \<Rightarrow> Inl e
             | Inr has_downtrend \<Rightarrow>
                (let df2 = set_loc (fst (df1 ! i)) (\<lambda>r. r\<lparr> has_downtrend_col := has_downtrend \<rparr>) df1
                 in if has_downtrend then
                      (case iloc df2 i of
                         Inl e \<Rightarrow> Inl e
                       | Inr hammer \<Rightarrow>
                          (case iloc df2 (i + 1) of
                             Inl e \<Rightarrow> Inl e
                           | Inr next_candle \<Rightarrow>
                              (if High next_candle > High hammer \<and> Open next_candle \<ge> High hammer then
                                 (if Open next_candle - Low hammer > 0 then
                                    Inr (set_loc (fst (df2 ! (i + 1)))
                                          (\<lambda>r. r\<lparr> signal := 1,
                                                  entry_price_col := Some (Open next_candle),
                                                  stop_loss_col := Some (Low hammer),
                                                  target_col := Some (Open next_candle
                                                     + (Open next_candle - Low hammer) * R),
                                                  pattern_date_col := Some (fst (df2 ! i)) \<rparr>)
                                          df2)
                                  else Inr df2)
                               else Inr df2)))
                    else Inr df2)))
      else Inr df1)"
    unfolding hammer_step_def il df1_def h_def by (simp only: sum.case Let_def)
  show ?thesis
  proof (cases h)
    case False
    with step1 have "hammer_step N R i df = Inr df1" by simp
    with b1 s1 False show ?thesis unfolding h_def by auto
  next
    case True
    from detect_downtrend_returns [of i df N True] ii
    obtain bs where bs: "detect_downtrend df i N True = Inr bs" by auto
    from detect_downtrend_returns [of i df N False] ii
    obtain br where br: "detect_downtrend df i N False = Inr br" by auto
    have bs1: "detect_downtrend df1 i N True = Inr bs"
      using detect_downtrend_cong [OF b1] bs by simp
    have br1: "detect_downtrend df1 i N False = Inr br"
      using detect_downtrend_cong [OF b1] br by simp
    define t where "t = (bs \<or> br)"
    have conf: "downtrend_confirmed df i N = t"
      unfolding downtrend_confirmed_def t_def bs br by simp
    have hd: "(if \<not> bs then Inr br else Inr bs) = (Inr t :: py_error + bool)"
      unfolding t_def by auto
    define df2 where "df2 = set_loc (fst (df1 ! i)) (\<lambda>r. r\<lparr> has_downtrend_col := t \<rparr>) df1"
    have b2: "bars df2 = bars df" unfolding df2_def using b1 by (simp add: bars_set_loc)
    have len2: "length df2 = length df" by (simp add: df2_def len1)
    have s2: "\<forall>j<length df. sig_of (snd (df2 ! j)) = sig_of (snd (df ! j))"
      unfolding df2_def using s1 len1 by (simp add: set_loc_nth_sig)
    have il2: "iloc df2 i = Inr (snd (df2 ! i))" "iloc df2 (i + 1) = Inr (snd (df2 ! (i + 1)))"
      using i len2 by (simp_all add: iloc_def)
    have f2: "High (snd (df2 ! i)) = High (snd (df ! i))" "Low (snd (df2 ! i)) = Low (snd (df ! i))"
      "High (snd (df2 ! (i + 1))) = High (snd (df ! (i + 1)))"
      "Open (snd (df2 ! (i + 1))) = Open (snd (df ! (i + 1)))"
      using bars_eq_fields [OF b2, of i] bars_eq_fields [OF b2, of "i + 1"] i len2 by simp_all
    have l2: "fst (df2 ! i) = fst (df ! i)" "fst (df2 ! (i + 1)) = fst (df ! (i + 1))"
      using bars_eq_nth(1) [OF b2, of i] bars_eq_nth(1) [OF b2, of "i + 1"] i len2 by simp_all
    have d2: "distinct (map fst df2)" using d by (simp add: df2_def df1_def)
    define fires where "fires = (t \<and> High (snd (df ! (i + 1))) > High (snd (df ! i))
             \<and> Open (snd (df ! (i + 1))) \<ge> High (snd (df ! i))
             \<and> Open (snd (df ! (i + 1))) - Low (snd (df ! i)) > 0)"
    define upd where "upd = (\<lambda>r :: hammer_row. r\<lparr> signal := 1,
            entry_price_col := Some (Open (snd (df ! (i + 1)))),
            stop_loss_col := Some (Low (snd (df ! i))),
            target_col := Some (Open (snd (df ! (i + 1)))
               + (Open (snd (df ! (i + 1))) - Low (snd (df ! i))) * R),
            pattern_date_col := Some (fst (df ! i)) \<rparr>)"
    define df3 where "df3 = set_loc (fst (df2 ! (i + 1))) upd df2"
    have step2': "hammer_step N R i df =
       (if t then
          (if High (snd (df ! (i + 1))) > High (snd (df ! i))
              \<and> Open (snd (df ! (i + 1))) \<ge> High (snd (df ! i))
           then (if Open (snd (df ! (i + 1))) - Low (snd (df ! i)) > 0 then Inr df3 else Inr df2)
           else Inr df2)
        else Inr df2)"
      unfolding step1 bs1 br1 using True
      by (simp only: if_True sum.case hd Let_def df2_def [symmetric] il2 f2 l2 df3_def upd_def)
    have step2: "hammer_step N R i df = Inr (if fires then df3 else df2)"
      unfolding step2' fires_def by simp
    have b3: "bars df3 = bars df2" unfolding df3_def upd_def by (rule bars_set_loc) simp
    have s3: "\<forall>j<length df. sig_of (snd (df3 ! j)) =
        (if j = i + 1 then long_signal R df i else sig_of (snd (df2 ! j)))"
    proof (intro allI impI)
      fix j assume j: "j < length df"
      show "sig_of (snd (df3 ! j)) = (if j = i + 1 then long_signal R df i else sig_of (snd (df2 ! j)))"
      proof (cases "j = i + 1")
        case True
        then show ?thesis
          unfolding df3_def using set_loc_nth_same [of "i + 1" df2 upd] i len2
          by (simp add: upd_def sig_of_def long_signal_def)
      next
        case False
        then show ?thesis
          unfolding df3_def using set_loc_nth_other [OF d2, of "i + 1" j upd] i len2 j
          by simp
      qed
    qed
    show ?thesis
      using step2 b2 b3 s2 s3 True conf
      unfolding h_def fires_def by auto
  qed
qed


lemma hammer_entry_cong:
  assumes "bars df = bars df'"
  shows "hammer_entry N df i = hammer_entry N df' i"
proof -
  from assms have len: "length df = length df'" by (metis bars_length)
  show ?thesis
  proof (cases "i + 1 < length df")
    case False
    with len show ?thesis by (simp add: hammer_entry_def)
  next
    case True
    then have i: "i < length df" by simp
    have "is_hammer (snd (df ! i)) 0.25 2.5 = is_hammer (ohlcv (snd (df ! i))) 0.25 2.5"
      by (simp add: is_hammer_ohlcv)
    also have "\<dots> = is_hammer (ohlcv (snd (df' ! i))) 0.25 2.5"
      using bars_eq_nth(2) [OF assms i] by simp
    finally have h: "is_hammer (snd (df ! i)) 0.25 2.5 = is_hammer (snd (df' ! i)) 0.25 2.5"
      by (simp add: is_hammer_ohlcv)
    have c: "downtrend_confirmed df i N = downtrend_confirmed df' i N"
      by (simp add: downtrend_confirmed_def detect_downtrend_cong [OF assms])
    show ?thesis
      unfolding hammer_entry_def h c len
      using bars_eq_fields [OF assms i] bars_eq_fields [OF assms True] by simp
  qed
qed

lemma long_signal_cong:
  assumes "bars df = bars df'" "i + 1 < length df"
  shows "long_signal R df i = long_signal R df' i"
proof -
  from assms(2) have i: "i < length df" by simp
  show ?thesis
    unfolding long_signal_def
    using bars_eq_fields [OF assms(1) i] bars_eq_fields [OF assms] bars_eq_nth(1) [OF assms(1) i]
    by simp
qed

lemma for_each_append:
  "for_each body (xs @ ys) s =
     (case for_each body xs s of Inl e \<Rightarrow> Inl e | Inr s' \<Rightarrow> for_each body ys s')"
  by (induction xs arbitrary: s) (auto split: sum.splits)

lemma hammer_loop_invariant:
  fixes df0 :: "hammer_row dataframe"
  assumes d: "distinct (map fst df0)"
  shows "m \<le> length df0 - 1 \<Longrightarrow>
     \<exists>res. for_each (hammer_step N R) [N ..< m] df0 = Inr res \<and> bars res = bars df0 \<and>
       (\<forall>j<length df0. sig_of (snd (res ! j)) =
          (if 0 < j \<and> j - 1 < m \<and> hammer_entry N df0 (j - 1)
           then long_signal R df0 (j - 1) else sig_of (snd (df0 ! j))))"
proof (induction m)
  case 0
  show ?case by simp
next
  case (Suc m)
  show ?case
  proof (cases "N \<le> m")
    case False
    then have e: "[N ..< Suc m] = []" by simp
    have "\<And>j. \<not> (j - 1 < Suc m \<and> hammer_entry N df0 (j - 1))"
      using False by (auto simp: hammer_entry_def)
    then show ?thesis unfolding e by auto
  next
    case True
    from Suc.prems have m: "m \<le> length df0 - 1" and m1: "m + 1 < length df0" by simp_all
    from Suc.IH [OF m] obtain res where
      r: "for_each (hammer_step N R) [N ..< m] df0 = Inr res" and
      b: "bars res = bars df0" and
      s: "\<forall>j<length df0. sig_of (snd (res ! j)) =
          (if 0 < j \<and> j - 1 < m \<and> hammer_entry N df0 (j - 1)
           then long_signal R df0 (j - 1) else sig_of (snd (df0 ! j)))"
      by blast
    from b have len: "length res = length df0" by (metis bars_length)
    from b have lab: "map fst res = map fst df0" by (metis bars_labels)
    from d lab have dr: "distinct (map fst res)" by simp
    from m1 len have m1r: "m + 1 < length res" by simp
    from hammer_step_effect [OF dr m1r, of N R] obtain res' where
      st: "hammer_step N R m res = Inr res'" and
      b': "bars res' = bars res" and
      s': "\<forall>j<length res. sig_of (snd (res' ! j)) =
        (if j = m + 1 \<and> is_hammer (snd (res ! m)) 0.25 2.5 \<and> downtrend_confirmed res m N
             \<and> High (snd (res ! (m + 1))) > High (snd (res ! m))
             \<and> Open (snd (res ! (m + 1))) \<ge> High (snd (res ! m))
             \<and> Open (snd (res ! (m + 1))) - Low (snd (res ! m)) > 0
         then long_signal R res m else sig_of (snd (res ! j)))"
      by blast
    have fire: "(is_hammer (snd (res ! m)) 0.25 2.5 \<and> downtrend_confirmed res m N
             \<and> High (snd (res ! (m + 1))) > High (snd (res ! m))
             \<and> Open (snd (res ! (m + 1))) \<ge> High (snd (res ! m))
             \<and> Open (snd (res ! (m + 1))) - Low (snd (res ! m)) > 0) = hammer_entry N df0 m"
      using hammer_entry_cong [OF b, of N m] True m1r by (simp add: hammer_entry_def)
    have ls: "long_signal R res m = long_signal R df0 m"
      by (rule long_signal_cong [OF b m1r])
    have up: "[N ..< Suc m] = [N ..< m] @ [m]" using True by simp
    have run: "for_each (hammer_step N R) [N ..< Suc m] df0 = Inr res'"
      unfolding up for_each_append r by (simp add: st)
    have sig: "\<forall>j<length df0. sig_of (snd (res' ! j)) =
          (if 0 < j \<and> j - 1 < Suc m \<and> hammer_entry N df0 (j - 1)
           then long_signal R df0 (j - 1) else sig_of (snd (df0 ! j)))"
    proof (intro allI impI)
      fix j assume j: "j < length df0"
      show "sig_of (snd (res' ! j)) =
          (if 0 < j \<and> j - 1 < Suc m \<and> hammer_entry N df0 (j - 1)
           then long_signal R df0 (j - 1) else sig_of (snd (df0 ! j)))"
      proof (cases "j = m + 1")
        case True
        with s' j len fire ls s show ?thesis by simp
      next
        case False
        then have "(j - 1 < Suc m) = (j - 1 < m) \<or> j = 0" by auto
        with False s' j len s show ?thesis by auto
      qed
    qed
    from run b' b sig show ?thesis by auto
  qed
qed

section \<open>Hammer strategy: the signal contract\<close>

lemma hammer_init_bars: "bars (map (\<lambda>(t, r). (t, hammer_init_row r)) df) = bars df"
  by (induction df) (auto simp: bars_def hammer_init_row_def ohlcv_def)

lemma hammer_init_sig:
  "j < length df \<Longrightarrow> sig_of (snd (map (\<lambda>(t, r). (t, hammer_init_row r)) df ! j)) = no_signal"
  by (simp add: case_prod_beta sig_of_def no_signal_def hammer_init_row_def)

text \<open>
  Claim C3. For a series with unique timestamps the hammer scan returns (it does not
  raise) a frame with the same bars, and the signal columns of every bar \<open>j\<close> are
  decided by the pattern at \<open>j - 1\<close> alone: when \<open>i = j - 1\<close> satisfies
  \<open>N \<le> i \<le> len - 2\<close>, bar \<open>i\<close> is a hammer, a downtrend over the \<open>N\<close> bars before it
  is confirmed (strict, or else relaxed), bar \<open>i + 1\<close> has a high above and an open at or
  above the hammer's high, and the risk \<open>open - low\<close> is positive, bar \<open>i + 1\<close>
  carries LONG with entry the open of bar \<open>i + 1\<close>, stop the low of bar \<open>i\<close>, target
  entry plus risk times \<open>R\<close> and pattern timestamp that of bar \<open>i\<close>; in every other
  case (bar 0, the breakout or the risk test failing, no hammer, no trend) the bar
  carries no signal. So no later pattern overwrites a signal and a bar gets at most one.
\<close>

theorem hammer_signal_contract:
  assumes "distinct (map fst df)"
  shows "\<exists>res. hammer_scan N R df = Inr res \<and> length res = length df \<and> bars res = bars df \<and>
     (\<forall>j<length df. sig_of (snd (res ! j)) =
        (if 0 < j \<and> hammer_entry N df (j - 1) then long_signal R df (j - 1) else no_signal))"
proof -
  define df0 :: "hammer_row dataframe" where "df0 = map (\<lambda>(t, r). (t, hammer_init_row r)) df"
  have b0: "bars df0 = bars df" unfolding df0_def by (rule hammer_init_bars)
  then have lab: "map fst df0 = map fst df" by (metis bars_labels)
  have len: "length df0 = length df" by (simp add: df0_def)
  from assms lab have d0: "distinct (map fst df0)" by simp
  from hammer_loop_invariant [OF d0, of "length df0 - 1" N R] obtain res where
    r: "for_each (hammer_step N R) [N ..< length df0 - 1] df0 = Inr res" and
    b: "bars res = bars df0" and
    s: "\<forall>j<length df0. sig_of (snd (res ! j)) =
          (if 0 < j \<and> j - 1 < length df0 - 1 \<and> hammer_entry N df0 (j - 1)
           then long_signal R df0 (j - 1) else sig_of (snd (df0 ! j)))"
    by blast
  have run: "hammer_scan N R df = Inr res"
    unfolding hammer_scan_def using r by (simp add: df0_def)
  from b b0 have bres: "bars res = bars df" by simp
  then have lres: "length res = length df" by (metis bars_length)
  have sig: "\<forall>j<length df. sig_of (snd (res ! j)) =
        (if 0 < j \<and> hammer_entry N df (j - 1) then long_signal R df (j - 1) else no_signal)"
  proof (intro allI impI)
    fix j assume j: "j < length df"
    have e: "hammer_entry N df0 (j - 1) = hammer_entry N df (j - 1)"
      by (rule hammer_entry_cong [OF b0])
    have init: "sig_of (snd (df0 ! j)) = no_signal"
      unfolding df0_def by (rule hammer_init_sig [OF j])
    show "sig_of (snd (res ! j)) =
        (if 0 < j \<and> hammer_entry N df (j - 1) then long_signal R df (j - 1) else no_signal)"
    proof (cases "0 < j \<and> hammer_entry N df (j - 1)")
      case True
      then have bound: "j - 1 + 1 < length df" unfolding hammer_entry_def by blast
      then have lt: "j - 1 < length df0 - 1" using len by simp
      have ls: "long_signal R df0 (j - 1) = long_signal R df (j - 1)"
        using long_signal_cong [OF b0, of "j - 1" R] bound len by simp
      from s j len True e lt ls show ?thesis by simp
    next
      case False
      with s j len e init show ?thesis by auto
    qed
  qed
  from run lres bres sig show ?thesis by blast
qed

lemma scenario_entry: "hammer_entry 6 scenario_bars 8"
  by code_simp

text \<open>
  Witness, and the ten-bar scenario: the breakout bar (label 9) gets LONG with entry 101,
  stop 90, target 117.5 and the hammer's timestamp 8; the hammer bar itself gets nothing.
\<close>

theorem hammer_signal_contract_witness:
  "distinct (map fst scenario_bars)
   \<and> (\<exists>res. hammer_scan 6 1.5 scenario_bars = Inr res
        \<and> sig_of (snd (res ! 9)) = (1, Some 101, Some 90, Some 117.5, Some 8)
        \<and> sig_of (snd (res ! 8)) = no_signal)"
proof -
  have d: "distinct (map fst scenario_bars)" by (simp add: scenario_bars_def)
  have len: "length scenario_bars = 10" by (simp add: scenario_bars_def)
  have e7: "\<not> hammer_entry 6 scenario_bars 7" by code_simp
  have ls: "long_signal 1.5 scenario_bars 8 = (1, Some 101, Some 90, Some 117.5, Some 8)"
    by (simp add: long_signal_def scenario_bars_def)
  from hammer_signal_contract [OF d, of 6 "1.5"] obtain res where
    r: "hammer_scan 6 1.5 scenario_bars = Inr res" and
    s: "\<forall>j<length scenario_bars. sig_of (snd (res ! j)) =
        (if 0 < j \<and> hammer_entry 6 scenario_bars (j - 1)
         then long_signal 1.5 scenario_bars (j - 1) else no_signal)"
    by blast
  from s [rule_format, of 9] len scenario_entry ls
  have s9: "sig_of (snd (res ! 9)) = (1, Some 101, Some 90, Some 117.5, Some 8)" by simp
  from s [rule_format, of 8] len e7
  have s8: "sig_of (snd (res ! 8)) = no_signal" by simp
  from d r s9 s8 show ?thesis by blast
qed

section \<open>Session breakout: one candle\<close>

lemma ny_candle_skip:
  "fst c \<notin> set (map fst df) \<Longrightarrow> ny_candle fh fl R ss c (st, df) = Inr (st, df)"
  by (simp add: ny_candle_def Let_def)

lemma ny_candle_flat:
  assumes "fst c \<in> set (map fst df)"
  shows "ny_candle fh fl R ss c (flat_state, df) =
     Inr (if Close (snd c) > fh then up_state (High (snd c)) (Low (snd c))
          else if Close (snd c) < fl then down_state (High (snd c)) (Low (snd c))
          else flat_state, df)"
  using assms
  by (simp add: ny_candle_def Let_def flat_state_def up_state_def down_state_def
      breakout_up_block_def breakout_down_block_def inside_range_def)

lemma ny_candle_up:
  assumes "fst c \<in> set (map fst df)"
  shows "ny_candle fh fl R ss c (up_state h l, df) =
     Inr (if inside_range fh fl (snd c)
          then (flat_state,
                if max h (High (snd c)) - High (snd c) > 0
                then set_loc (fst c)
                       (\<lambda>r. r\<lparr> signal := - 1,
                               entry_price_col := Some (High (snd c)),
                               stop_loss_col := Some (max h (High (snd c))),
                               target_col := Some (High (snd c)
                                  - (max h (High (snd c)) - High (snd c)) * R),
                               pattern_date_col := Some ss \<rparr>) df
                else df)
          else (up_state (max h (High (snd c))) (min l (Low (snd c))), df))"
  using assms
  by (simp add: ny_candle_def Let_def flat_state_def up_state_def
      breakout_up_block_def max_def min_def)

lemma ny_candle_down:
  assumes "fst c \<in> set (map fst df)"
  shows "ny_candle fh fl R ss c (down_state h l, df) =
     Inr (if inside_range fh fl (snd c)
          then (flat_state,
                if Low (snd c) - min l (Low (snd c)) > 0
                then set_loc (fst c)
                       (\<lambda>r. r\<lparr> signal := 1,
                               entry_price_col := Some (Low (snd c)),
                               stop_loss_col := Some (min l (Low (snd c))),
                               target_col := Some (Low (snd c)
                                  + (Low (snd c) - min l (Low (snd c))) * R),
                               pattern_date_col := Some ss \<rparr>) df
                else df)
          else (down_state (max h (High (snd c))) (min l (Low (snd c))), df))"
  using assms
  by (simp add: ny_candle_def Let_def flat_state_def down_state_def
      breakout_down_block_def max_def min_def)

section \<open>Session breakout: runs of candles\<close>

lemma tracking_cases:
  "tracking st = (st = flat_state \<or> (\<exists>h l. st = up_state h l) \<or> (\<exists>h l. st = down_state h l))"
proof
  assume t: "tracking st"
  show "st = flat_state \<or> (\<exists>h l. st = up_state h l) \<or> (\<exists>h l. st = down_state h l)"
  proof (cases "in_breakout_up st")
    case True
    with t obtain h l where "breakout_high st = Some h" "breakout_low st = Some l"
      "\<not> in_breakout_down st"
      by (auto simp: tracking_def)
    with True have "st = up_state h l" by (simp add: up_state_def)
    then show ?thesis by blast
  next
    case False
    show ?thesis
    proof (cases "in_breakout_down st")
      case True
      with t False obtain h l where "breakout_high st = Some h" "breakout_low st = Some l"
        by (auto simp: tracking_def)
      with True False have "st = down_state h l" by (simp add: down_state_def)
      then show ?thesis by blast
    next
      case nd: False
      with t False have "st = flat_state" by (simp add: tracking_def flat_state_def)
      then show ?thesis by blast
    qed
  qed
next
  assume "st = flat_state \<or> (\<exists>h l. st = up_state h l) \<or> (\<exists>h l. st = down_state h l)"
  then show "tracking st"
    by (auto simp: tracking_def flat_state_def up_state_def down_state_def)
qed

lemma tracking_simps [simp]:
  "tracking flat_state" "tracking (up_state h l)" "tracking (down_state h l)"
  by (auto simp: tracking_cases)

lemma ny_sig_update_ohlcv [simp]:
  "ohlcv (r\<lparr> signal := a, entry_price_col := b, stop_loss_col := c, target_col := d',
            pattern_date_col := e \<rparr>) = ohlcv r"
  "ohlcv (r\<lparr> four_hour_high_col := x, four_hour_low_col := y \<rparr>) = ohlcv r"
  by (simp_all add: ohlcv_def)

lemma set_loc_other_label:
  "j < length df \<Longrightarrow> fst (df ! j) \<noteq> l \<Longrightarrow> set_loc l f df ! j = df ! j"
  by (simp add: set_loc_nth)

lemma ny_candle_effect:
  fixes df :: "ny_row dataframe"
  assumes "tracking st"
  shows "\<exists>st' df'. ny_candle fh fl R ss c (st, df) = Inr (st', df') \<and> tracking st'
           \<and> bars df' = bars df
           \<and> (\<forall>j<length df. fst (df ! j) \<noteq> fst c \<longrightarrow> df' ! j = df ! j)"
proof (cases "fst c \<in> set (map fst df)")
  case False
  with assms show ?thesis by (simp add: ny_candle_skip)
next
  case True
  from assms consider "st = flat_state" | h l where "st = up_state h l"
    | h l where "st = down_state h l"
    unfolding tracking_cases by blast
  then show ?thesis
  proof cases
    case 1
    show ?thesis unfolding 1 ny_candle_flat [OF True] by simp
  next
    case 2
    show ?thesis unfolding 2 ny_candle_up [OF True]
      by (simp add: bars_set_loc set_loc_other_label)
  next
    case 3
    show ?thesis unfolding 3 ny_candle_down [OF True]
      by (simp add: bars_set_loc set_loc_other_label)
  qed
qed

lemma ny_loop_effect:
  fixes df :: "ny_row dataframe"
  assumes "tracking st"
  shows "\<exists>st' df'. for_each (ny_candle fh fl R ss) cs (st, df) = Inr (st', df') \<and> tracking st'
           \<and> bars df' = bars df
           \<and> (\<forall>j<length df. fst (df ! j) \<notin> fst ` set cs \<longrightarrow> df' ! j = df ! j)"
  using assms
proof (induction cs arbitrary: st df)
  case Nil
  then show ?case by simp
next
  case (Cons c cs)
  from ny_candle_effect [OF Cons.prems, of fh fl R ss c df] obtain st1 df1 where
    a: "ny_candle fh fl R ss c (st, df) = Inr (st1, df1)" and t1: "tracking st1"
    and b1: "bars df1 = bars df"
    and o1: "\<forall>j<length df. fst (df ! j) \<noteq> fst c \<longrightarrow> df1 ! j = df ! j"
    by blast
  from Cons.IH [OF t1, of df1] obtain st2 df2 where
    b: "for_each (ny_candle fh fl R ss) cs (st1, df1) = Inr (st2, df2)" and t2: "tracking st2"
    and b2: "bars df2 = bars df1"
    and o2: "\<forall>j<length df1. fst (df1 ! j) \<notin> fst ` set cs \<longrightarrow> df2 ! j = df1 ! j"
    by blast
  from b1 have len: "length df1 = length df" by (metis bars_length)
  have run: "for_each (ny_candle fh fl R ss) (c # cs) (st, df) = Inr (st2, df2)"
    by (simp add: a b)
  have "\<forall>j<length df. fst (df ! j) \<notin> fst ` set (c # cs) \<longrightarrow> df2 ! j = df ! j"
  proof (intro allI impI)
    fix j assume j: "j < length df" and n: "fst (df ! j) \<notin> fst ` set (c # cs)"
    from n have n1: "fst (df ! j) \<noteq> fst c" and n2: "fst (df ! j) \<notin> fst ` set cs" by auto
    from o1 j n1 have e1: "df1 ! j = df ! j" by simp
    with o2 j len n2 have "df2 ! j = df1 ! j" by simp
    with e1 show "df2 ! j = df ! j" by simp
  qed
  with run t2 b2 b1 show ?case by auto
qed



section \<open>Session breakout: the re-entry contract\<close>








section \<open>The scans return\<close>

lemma detect_downtrend_not_raised:
  "i \<le> length df \<Longrightarrow> detect_downtrend df i N s \<noteq> Inl e"
  using detect_downtrend_returns [of i df N s] by auto

lemma detect_uptrend_not_raised:
  "i \<le> length df \<Longrightarrow> detect_uptrend df i N s \<noteq> Inl e"
  using detect_uptrend_returns [of i df N s] by auto

lemma iloc_not_raised: "k < length df \<Longrightarrow> iloc df k \<noteq> Inl e"
  by (simp add: iloc_def)

lemma hammer_step_returns:
  fixes df :: "hammer_row dataframe"
  assumes "i + 1 < length df"
  shows "\<exists>df'. hammer_step N R i df = Inr df' \<and> bars df' = bars df"
  using assms unfolding hammer_step_def Let_def
  by (auto split: sum.splits
      simp: bars_set_loc detect_downtrend_not_raised iloc_not_raised)

lemma star_flags_ohlcv [simp]:
  "ohlcv (r\<lparr> is_shooting_star_col := x \<rparr>) = ohlcv r"
  "ohlcv (r\<lparr> has_uptrend_col := y \<rparr>) = ohlcv r"
  by (simp_all add: ohlcv_def)

lemma star_step_returns:
  fixes df :: "star_row dataframe"
  assumes "i + 1 < length df"
  shows "\<exists>df'. star_step N R i df = Inr df' \<and> bars df' = bars df"
  using assms unfolding star_step_def Let_def
  by (auto split: sum.splits
      simp: bars_set_loc detect_uptrend_not_raised iloc_not_raised)

lemma for_each_preserves:
  assumes "\<And>x s. x \<in> set xs \<Longrightarrow> P s \<Longrightarrow> \<exists>s'. body x s = Inr s' \<and> P s'"
    and "P s"
  shows "\<exists>s'. for_each body xs s = Inr s' \<and> P s'"
  using assms
proof (induction xs arbitrary: s)
  case Nil
  then show ?case by simp
next
  case (Cons x xs)
  from Cons.prems(1) [of x s] Cons.prems(2) obtain s1 where
    a: "body x s = Inr s1" and p: "P s1" by auto
  from Cons.IH [of s1] Cons.prems(1) p obtain s2 where
    "for_each body xs s1 = Inr s2" "P s2" by auto
  with a show ?case by simp
qed

lemma hammer_scan_returns:
  "\<exists>res. hammer_scan N R df = Inr res \<and> bars res = bars df"
proof -
  define df0 :: "hammer_row dataframe" where "df0 = map (\<lambda>(t, r). (t, hammer_init_row r)) df"
  have b0: "bars df0 = bars df" unfolding df0_def by (rule hammer_init_bars)
  have step: "\<And>i s. i \<in> set [N ..< length df0 - 1] \<Longrightarrow> bars s = bars df0
      \<Longrightarrow> \<exists>s'. hammer_step N R i s = Inr s' \<and> bars s' = bars df0"
  proof -
    fix i and s :: "hammer_row dataframe"
    assume i: "i \<in> set [N ..< length df0 - 1]" and b: "bars s = bars df0"
    from b have "length s = length df0" by (metis bars_length)
    with i have "i + 1 < length s" by auto
    from hammer_step_returns [OF this, of N R] b
    show "\<exists>s'. hammer_step N R i s = Inr s' \<and> bars s' = bars df0" by auto
  qed
  from for_each_preserves [of "[N ..< length df0 - 1]" "\<lambda>s. bars s = bars df0"
      "hammer_step N R" df0, OF step]
  obtain res where "for_each (hammer_step N R) [N ..< length df0 - 1] df0 = Inr res"
    "bars res = bars df0" by auto
  with b0 show ?thesis
    unfolding hammer_scan_def by (auto simp: df0_def)
qed

lemma star_init_bars: "bars (map (\<lambda>(t, r). (t, star_init_row r)) df) = bars df"
  by (induction df) (auto simp: bars_def star_init_row_def ohlcv_def)

lemma star_scan_returns:
  "\<exists>res. star_scan N R df = Inr res \<and> bars res = bars df"
proof -
  define df0 :: "star_row dataframe" where "df0 = map (\<lambda>(t, r). (t, star_init_row r)) df"
  have b0: "bars df0 = bars df" unfolding df0_def by (rule star_init_bars)
  have step: "\<And>i s. i \<in> set [N ..< length df0 - 1] \<Longrightarrow> bars s = bars df0
      \<Longrightarrow> \<exists>s'. star_step N R i s = Inr s' \<and> bars s' = bars df0"
  proof -
    fix i and s :: "star_row dataframe"
    assume i: "i \<in> set [N ..< length df0 - 1]" and b: "bars s = bars df0"
    from b have "length s = length df0" by (metis bars_length)
    with i have "i + 1 < length s" by auto
    from star_step_returns [OF this, of N R] b
    show "\<exists>s'. star_step N R i s = Inr s' \<and> bars s' = bars df0" by auto
  qed
  from for_each_preserves [of "[N ..< length df0 - 1]" "\<lambda>s. bars s = bars df0"
      "star_step N R" df0, OF step]
  obtain res where "for_each (star_step N R) [N ..< length df0 - 1] df0 = Inr res"
    "bars res = bars df0" by auto
  with b0 show ?thesis
    unfolding star_scan_def by (auto simp: df0_def)
qed

lemma ny_init_bars: "bars (map (\<lambda>(t, r). (t, ny_init_row r)) df) = bars df"
  by (induction df) (auto simp: bars_def ny_init_row_def ohlcv_def)

lemma range_columns_bars:
  fixes d :: "ny_row dataframe"
  shows "bars (fold (\<lambda>c d. if fst c \<in> set (map fst d)
                         then set_loc (fst c)
                                (\<lambda>r. r\<lparr> four_hour_high_col := Some h, four_hour_low_col := Some l \<rparr>) d
                         else d) cs d) = bars d"
  by (induction cs arbitrary: d) (simp_all add: bars_set_loc)

lemma ny_day_returns:
  fixes df :: "ny_row dataframe"
  shows "\<exists>df'. ny_day clock hh mm R df_ny date df = Inr df' \<and> bars df' = bars df"
proof -
  define day_data where "day_data = filter (\<lambda>c. local_date clock (fst c) = date) df_ny"
  define ss where "ss = session_open clock hh mm date"
  define four where "four = filter (\<lambda>c. fst c \<ge> ss \<and> fst c < ss + 14400) day_data"
  define fh where "fh = column_max (map (\<lambda>c. High (snd c)) four)"
  define fl where "fl = column_min (map (\<lambda>c. Low (snd c)) four)"
  define after where "after = filter (\<lambda>c. fst c \<ge> ss + 14400) day_data"
  define df1 where "df1 = fold (\<lambda>c d. if fst c \<in> set (map fst d)
                         then set_loc (fst c)
                                (\<lambda>r. r\<lparr> four_hour_high_col := Some fh, four_hour_low_col := Some fl \<rparr>) d
                         else d) after df"
  have eq: "ny_day clock hh mm R df_ny date df =
     (if length four = 0 then Inr df
      else if length after = 0 then Inr df
      else (case for_each (ny_candle fh fl R ss) after (flat_state, df1) of
              Inl e \<Rightarrow> Inl e | Inr s \<Rightarrow> Inr (snd s)))"
    unfolding ny_day_def Let_def day_data_def ss_def four_def fh_def fl_def after_def df1_def
    by (rule refl)
  have b1: "bars df1 = bars df" unfolding df1_def by (rule range_columns_bars)
  from ny_loop_effect [of flat_state fh fl R ss after df1] obtain st' df' where
    r: "for_each (ny_candle fh fl R ss) after (flat_state, df1) = Inr (st', df')"
    and b: "bars df' = bars df1" by auto
  show ?thesis unfolding eq using r b b1 by simp
qed

lemma ny_scan_returns:
  "\<exists>res. ny_scan clock hh mm R df = Inr res \<and> bars res = bars df"
proof -
  define df0 :: "ny_row dataframe" where "df0 = map (\<lambda>(t, r). (t, ny_init_row r)) df"
  have b0: "bars df0 = bars df" unfolding df0_def by (rule ny_init_bars)
  have step: "\<And>date s. date \<in> set (sort (remdups (map (\<lambda>c. local_date clock (fst c)) df0)))
      \<Longrightarrow> bars s = bars df0
      \<Longrightarrow> \<exists>s'. ny_day clock hh mm R df0 date s = Inr s' \<and> bars s' = bars df0"
    using ny_day_returns by metis
  from for_each_preserves [of "sort (remdups (map (\<lambda>c. local_date clock (fst c)) df0))"
      "\<lambda>s. bars s = bars df0" "ny_day clock hh mm R df0" df0, OF step]
  obtain res where
    "for_each (ny_day clock hh mm R df0) (sort (remdups (map (\<lambda>c. local_date clock (fst c)) df0))) df0
       = Inr res" "bars res = bars df0" by auto
  with b0 show ?thesis
    unfolding ny_scan_def Let_def by (auto simp: df0_def)
qed

section \<open>The generators leave the caller's frame alone\<close>

lemma mutate_loop:
  assumes "ref < length store" "store ! ref = Inr d" "for_each f xs d = Inr d'"
  shows "for_each (\<lambda>x. mutate ref (f x)) xs store = Inr (store[ref := Inr d'])"
  using assms
proof (induction xs arbitrary: store d)
  case Nil
  then show ?case by (auto simp: list_update_same_conv) (metis list_update_id)
next
  case (Cons x xs)
  from Cons.prems(3) obtain d1 where
    a: "f x d = Inr d1" and b: "for_each f xs d1 = Inr d'"
    by (auto split: sum.splits)
  have m: "mutate ref (f x) store = Inr (store[ref := Inr d1])"
    using Cons.prems(1,2) a by (simp add: mutate_def)
  have "for_each (\<lambda>x. mutate ref (f x)) xs (store[ref := Inr d1])
          = Inr ((store[ref := Inr d1])[ref := Inr d'])"
    by (rule Cons.IH [OF _ _ b]) (simp_all add: Cons.prems(1))
  with m show ?case by simp
qed

lemma source_loop:
  assumes "ref < length store" "src < length store" "src \<noteq> ref"
    "store ! src = Inr day_source" "store ! ref = Inr d"
    "for_each (f day_source) xs d = Inr d'"
  shows "for_each (\<lambda>x s. case s ! src of Inl u \<Rightarrow> Inl ValueError
                          | Inr day_source \<Rightarrow> mutate ref (f day_source x) s) xs store
           = Inr (store[ref := Inr d'])"
  using assms
proof (induction xs arbitrary: store d)
  case Nil
  then show ?case by (auto simp: list_update_same_conv) (metis list_update_id)
next
  case (Cons x xs)
  from Cons.prems(6) obtain d1 where
    a: "f day_source x d = Inr d1" and b: "for_each (f day_source) xs d1 = Inr d'"
    by (auto split: sum.splits)
  have m: "mutate ref (f day_source x) store = Inr (store[ref := Inr d1])"
    using Cons.prems(1,5) a by (simp add: mutate_def)
  have "for_each (\<lambda>x s. case s ! src of Inl u \<Rightarrow> Inl ValueError
                          | Inr day_source \<Rightarrow> mutate ref (f day_source x) s) xs
          (store[ref := Inr d1])
          = Inr ((store[ref := Inr d1])[ref := Inr d'])"
    by (rule Cons.IH [OF _ _ _ _ _ b])
       (use Cons.prems in \<open>simp_all add: nth_list_update\<close>)
  with m Cons.prems(4) show ?case by simp
qed

lemma hammer_generate_closed:
  assumes "ref < length store"
  shows "\<exists>res. HammerStrategy_generate_signals N R ref store
                  = Inr (length store, store @ [Inr res])
               \<and> bars res = object_bars (store ! ref)"
proof -
  define df0 :: "hammer_row dataframe" where
    "df0 = (case store ! ref of Inl d \<Rightarrow> map (\<lambda>(t, r). (t, hammer_init_row r)) d
                              | Inr d \<Rightarrow> map (\<lambda>(t, r). (t, hammer_init_row r)) d)"
  have b0: "bars df0 = object_bars (store ! ref)"
    unfolding df0_def object_bars_def by (simp add: hammer_init_bars split: sum.splits)
  have scan: "\<exists>res. for_each (hammer_step N R) [N ..< length df0 - 1] df0 = Inr res
                  \<and> bars res = bars df0"
  proof (cases "store ! ref")
    case (Inl d)
    from hammer_scan_returns [of N R d] show ?thesis
      unfolding hammer_scan_def df0_def Inl by (simp add: hammer_init_bars)
  next
    case (Inr d)
    from hammer_scan_returns [of N R d] show ?thesis
      unfolding hammer_scan_def df0_def Inr by (simp add: hammer_init_bars)
  qed
  then obtain res where r: "for_each (hammer_step N R) [N ..< length df0 - 1] df0 = Inr res"
    and br: "bars res = bars df0" by blast
  let ?s2 = "store @ [Inr df0]"
  have c: "df_copy ref store = Inr (length store, store @ [store ! ref])"
    using assms by (simp add: df_copy_def)
  have i: "init_columns (length store) hammer_init_row hammer_init_row (store @ [store ! ref])
             = Inr ?s2"
    by (simp add: init_columns_def df0_def)
  have fl: "frame_length (length store) ?s2 = length df0"
    by (simp add: frame_length_def)
  have l: "for_each (\<lambda>i. mutate (length store) (hammer_step N R i)) [N ..< length df0 - 1] ?s2
             = Inr (?s2[length store := Inr res])"
    by (rule mutate_loop [OF _ _ r]) simp_all
  have "HammerStrategy_generate_signals N R ref store = Inr (length store, store @ [Inr res])"
    unfolding HammerStrategy_generate_signals_def c using i fl l by simp
  with br b0 show ?thesis by auto
qed

lemma star_generate_closed:
  assumes "ref < length store"
  shows "\<exists>res. ShootingStarStrategy_generate_signals N R ref store
                  = Inr (length store, store @ [Inr res])
               \<and> bars res = object_bars (store ! ref)"
proof -
  define df0 :: "star_row dataframe" where
    "df0 = (case store ! ref of Inl d \<Rightarrow> map (\<lambda>(t, r). (t, star_init_row r)) d
                              | Inr d \<Rightarrow> map (\<lambda>(t, r). (t, star_init_row r)) d)"
  have b0: "bars df0 = object_bars (store ! ref)"
    unfolding df0_def object_bars_def by (simp add: star_init_bars split: sum.splits)
  have scan: "\<exists>res. for_each (star_step N R) [N ..< length df0 - 1] df0 = Inr res
                  \<and> bars res = bars df0"
  proof (cases "store ! ref")
    case (Inl d)
    from star_scan_returns [of N R d] show ?thesis
      unfolding star_scan_def df0_def Inl by (simp add: star_init_bars)
  next
    case (Inr d)
    from star_scan_returns [of N R d] show ?thesis
      unfolding star_scan_def df0_def Inr by (simp add: star_init_bars)
  qed
  then obtain res where r: "for_each (star_step N R) [N ..< length df0 - 1] df0 = Inr res"
    and br: "bars res = bars df0" by blast
  let ?s2 = "store @ [Inr df0]"
  have c: "df_copy ref store = Inr (length store, store @ [store ! ref])"
    using assms by (simp add: df_copy_def)
  have i: "init_columns (length store) star_init_row star_init_row (store @ [store ! ref])
             = Inr ?s2"
    by (simp add: init_columns_def df0_def)
  have fl: "frame_length (length store) ?s2 = length df0"
    by (simp add: frame_length_def)
  have l: "for_each (\<lambda>i. mutate (length store) (star_step N R i)) [N ..< length df0 - 1] ?s2
             = Inr (?s2[length store := Inr res])"
    by (rule mutate_loop [OF _ _ r]) simp_all
  have "ShootingStarStrategy_generate_signals N R ref store = Inr (length store, store @ [Inr res])"
    unfolding ShootingStarStrategy_generate_signals_def c using i fl l by simp
  with br b0 show ?thesis by auto
qed

lemma ny_generate_closed:
  assumes "ref < length store"
  shows "\<exists>res src. NYSessionStrategy_generate_signals clock hh mm R ref store
                  = Inr (length store, store @ [Inr res, Inr src])
               \<and> bars res = object_bars (store ! ref)"
proof -
  define df0 :: "ny_row dataframe" where
    "df0 = (case store ! ref of Inl d \<Rightarrow> map (\<lambda>(t, r). (t, ny_init_row r)) d
                              | Inr d \<Rightarrow> map (\<lambda>(t, r). (t, ny_init_row r)) d)"
  define dates where "dates = sort (remdups (map (\<lambda>c. local_date clock (fst c)) df0))"
  have b0: "bars df0 = object_bars (store ! ref)"
    unfolding df0_def object_bars_def by (simp add: ny_init_bars split: sum.splits)
  have step: "\<And>date s. date \<in> set dates \<Longrightarrow> bars s = bars df0
      \<Longrightarrow> \<exists>s'. ny_day clock hh mm R df0 date s = Inr s' \<and> bars s' = bars df0"
    using ny_day_returns by metis
  from for_each_preserves [of dates "\<lambda>s. bars s = bars df0" "ny_day clock hh mm R df0" df0, OF step]
  obtain res where r: "for_each (ny_day clock hh mm R df0) dates df0 = Inr res"
    and br: "bars res = bars df0" by auto
  let ?s2 = "store @ [Inr df0]"
  let ?s3 = "store @ [Inr df0, Inr df0]"
  have c: "df_copy ref store = Inr (length store, store @ [store ! ref])"
    using assms by (simp add: df_copy_def)
  have i: "init_columns (length store) ny_init_row ny_init_row (store @ [store ! ref]) = Inr ?s2"
    by (simp add: init_columns_def df0_def)
  have c2: "df_copy (length store) ?s2 = Inr (Suc (length store), ?s3)"
    by (simp add: df_copy_def)
  have dt: "ny_dates clock (Suc (length store)) ?s3 = dates"
    by (simp add: ny_dates_def dates_def nth_append)
  have l: "for_each (\<lambda>date s. case s ! Suc (length store) of Inl u \<Rightarrow> Inl ValueError
               | Inr day_source \<Rightarrow> mutate (length store) (ny_day clock hh mm R day_source date) s)
             dates ?s3
             = Inr (?s3[length store := Inr res])"
    by (rule source_loop [where f = "ny_day clock hh mm R", OF _ _ _ _ _ r])
       (simp_all add: nth_append)
  have "NYSessionStrategy_generate_signals clock hh mm R ref store
          = Inr (length store, store @ [Inr res, Inr df0])"
    unfolding NYSessionStrategy_generate_signals_def c using i c2 dt l by simp
  with br b0 show ?thesis by auto
qed

text \<open>
  Claim C10. Called with a reference to a frame of the store, each of the three
  generators returns (it does not raise) a reference that did not exist before the call;
  every object that existed before the call, the caller's frame among them, is exactly as
  it was (no column added, no value altered); and the frame behind the returned reference
  has the same labels and the same OHLCV values at every position as the caller's.
\<close>

theorem generate_signals_fresh_copy:
  assumes "refH < length storeH" "refS < length storeS" "refN < length storeN"
  shows "(\<exists>store' res. HammerStrategy_generate_signals N R refH storeH = Inr (length storeH, store')
            \<and> take (length storeH) store' = storeH
            \<and> store' ! length storeH = Inr res
            \<and> bars res = object_bars (storeH ! refH))
       \<and> (\<exists>store' res. ShootingStarStrategy_generate_signals N R refS storeS = Inr (length storeS, store')
            \<and> take (length storeS) store' = storeS
            \<and> store' ! length storeS = Inr res
            \<and> bars res = object_bars (storeS ! refS))
       \<and> (\<exists>store' res. NYSessionStrategy_generate_signals clock hh mm R' refN storeN
                          = Inr (length storeN, store')
            \<and> take (length storeN) store' = storeN
            \<and> store' ! length storeN = Inr res
            \<and> bars res = object_bars (storeN ! refN))"
proof -
  from hammer_generate_closed [OF assms(1), of N R] obtain resH where
    h: "HammerStrategy_generate_signals N R refH storeH = Inr (length storeH, storeH @ [Inr resH])"
    and bh: "bars resH = object_bars (storeH ! refH)" by blast
  from star_generate_closed [OF assms(2), of N R] obtain resS where
    s: "ShootingStarStrategy_generate_signals N R refS storeS = Inr (length storeS, storeS @ [Inr resS])"
    and bs: "bars resS = object_bars (storeS ! refS)" by blast
  from ny_generate_closed [OF assms(3), of clock hh mm R'] obtain resN src where
    n: "NYSessionStrategy_generate_signals clock hh mm R' refN storeN
          = Inr (length storeN, storeN @ [Inr resN, Inr src])"
    and bn: "bars resN = object_bars (storeN ! refN)" by blast
  have a: "\<exists>store' res. HammerStrategy_generate_signals N R refH storeH = Inr (length storeH, store')
            \<and> take (length storeH) store' = storeH
            \<and> store' ! length storeH = Inr res
            \<and> bars res = object_bars (storeH ! refH)"
    using h bh by simp
  have b: "\<exists>store' res. ShootingStarStrategy_generate_signals N R refS storeS = Inr (length storeS, store')
            \<and> take (length storeS) store' = storeS
            \<and> store' ! length storeS = Inr res
            \<and> bars res = object_bars (storeS ! refS)"
    using s bs by simp
  have c: "\<exists>store' res. NYSessionStrategy_generate_signals clock hh mm R' refN storeN
                          = Inr (length storeN, store')
            \<and> take (length storeN) store' = storeN
            \<and> store' ! length storeN = Inr res
            \<and> bars res = object_bars (storeN ! refN)"
    using n bn by simp
  from a b c show ?thesis by blast
qed

text \<open>
  Witness: a store holding only the ten-bar series; each generator returns reference 1
  and leaves object 0 as it was.
\<close>

theorem generate_signals_fresh_copy_witness:
  "(\<exists>store' res. HammerStrategy_generate_signals 6 1.5 0 [Inl scenario_bars] = Inr (1, store')
       \<and> take 1 store' = [Inl scenario_bars] \<and> store' ! 1 = Inr res \<and> bars res = scenario_bars)
   \<and> (\<exists>store' res. ShootingStarStrategy_generate_signals 6 1.5 0 [Inl scenario_bars] = Inr (1, store')
       \<and> take 1 store' = [Inl scenario_bars] \<and> store' ! 1 = Inr res \<and> bars res = scenario_bars)
   \<and> (\<exists>store' res. NYSessionStrategy_generate_signals
          \<lparr> local_date = (\<lambda>t. t div 86400),
            session_open = (\<lambda>h m d. d * 86400 + int h * 3600 + int m * 60) \<rparr>
          8 0 8 0 [Inl scenario_bars] = Inr (1, store')
       \<and> take 1 store' = [Inl scenario_bars] \<and> store' ! 1 = Inr res \<and> bars res = scenario_bars)"
proof -
  let ?H = "[Inl scenario_bars] :: (candle, hammer_row) store"
  let ?S = "[Inl scenario_bars] :: (candle, star_row) store"
  let ?N = "[Inl scenario_bars] :: (candle, ny_row) store"
  have h: "(0::nat) < length ?H" and s: "(0::nat) < length ?S" and n: "(0::nat) < length ?N"
    by simp_all
  have self: "bars scenario_bars = scenario_bars"
    by (simp add: bars_def scenario_bars_def ohlcv_def)
  from generate_signals_fresh_copy [OF h s n, of 6 "1.5"
      "\<lparr> local_date = (\<lambda>t. t div 86400),
         session_open = (\<lambda>h m d. d * 86400 + int h * 3600 + int m * 60) \<rparr>" 8 0 8]
  show ?thesis
    by (simp add: object_bars_def self)
qed


end
